theory Spec2Isabelle
  imports Complex_Main "HOL-Library.AList"
begin

section \<open>JavaScript numbers\<close>

text \<open>
  A JavaScript number is an IEEE 754 binary64 value. A finite one is modelled by the
  rational number it denotes (the sign of zero is not distinguished), besides the two
  infinities and \<open>NaN\<close>. An arithmetic operation gives the exact result rounded to the
  nearest double, ties to the even significand.
\<close>

datatype number = Fin rat | NaN | PosInfinity | NegInfinity

text \<open>
  The exponent \<open>e\<close> of the unit in the last place of \<open>a\<close>: the greatest \<open>e\<close> in
  \<open>-1073 .. 971\<close> with \<open>2^(e + 52) \<le> a\<close>, and \<open>-1074\<close> (the subnormal spacing) when there is
  none. \<open>search_exp n\<close> tries \<open>n - 1074\<close>, \<open>n - 1075\<close>, ... in turn.
\<close>

fun search_exp :: "nat \<Rightarrow> rat \<Rightarrow> int" where
  "search_exp 0 a = - 1074"
| "search_exp (Suc n) a = (if 2 powi (int n - 1021) \<le> a then int n - 1073 else search_exp n a)"

definition ulp_exponent :: "rat \<Rightarrow> int" where
  "ulp_exponent x = search_exp 2045 \<bar>x\<bar>"

text \<open>Rounding a rational to the nearest integer, a tie to the even one.\<close>

definition round_half_even :: "rat \<Rightarrow> int" where
  "round_half_even q =
     (let f = \<lfloor>q\<rfloor>; d = q - of_int f
      in if d < 1 / 2 then f else if 1 / 2 < d then f + 1 else if even f then f else f + 1)"

text \<open>
  Rounding to binary64: the significand \<open>x / 2^e\<close> is rounded to an integer; a result of
  magnitude \<open>2^1024\<close> or more overflows to an infinity.
\<close>

definition round_double :: "rat \<Rightarrow> number" where
  "round_double x =
     (let e = ulp_exponent x;
          r = of_int (round_half_even (x / 2 powi e)) * 2 powi e
      in if 2 ^ 1024 \<le> r then PosInfinity
         else if r \<le> - (2 ^ 1024) then NegInfinity
         else Fin r)"

text \<open>The operators \<open>+\<close>, \<open>-\<close>, \<open>Math.abs\<close>, \<open>>\<close> and \<open><=\<close>.\<close>

fun js_add :: "number \<Rightarrow> number \<Rightarrow> number" where
  "js_add (Fin a) (Fin b) = round_double (a + b)"
| "js_add NaN _ = NaN"
| "js_add _ NaN = NaN"
| "js_add PosInfinity NegInfinity = NaN"
| "js_add NegInfinity PosInfinity = NaN"
| "js_add PosInfinity _ = PosInfinity"
| "js_add _ PosInfinity = PosInfinity"
| "js_add NegInfinity _ = NegInfinity"
| "js_add _ NegInfinity = NegInfinity"

fun js_sub :: "number \<Rightarrow> number \<Rightarrow> number" where
  "js_sub (Fin a) (Fin b) = round_double (a - b)"
| "js_sub NaN _ = NaN"
| "js_sub _ NaN = NaN"
| "js_sub PosInfinity PosInfinity = NaN"
| "js_sub NegInfinity NegInfinity = NaN"
| "js_sub PosInfinity _ = PosInfinity"
| "js_sub _ NegInfinity = PosInfinity"
| "js_sub NegInfinity _ = NegInfinity"
| "js_sub _ PosInfinity = NegInfinity"

fun js_abs :: "number \<Rightarrow> number" where
  "js_abs (Fin a) = Fin \<bar>a\<bar>"
| "js_abs NaN = NaN"
| "js_abs PosInfinity = PosInfinity"
| "js_abs NegInfinity = PosInfinity"

fun js_gt :: "number \<Rightarrow> number \<Rightarrow> bool" where
  "js_gt (Fin a) (Fin b) = (b < a)"
| "js_gt NaN _ = False"
| "js_gt _ NaN = False"
| "js_gt PosInfinity PosInfinity = False"
| "js_gt PosInfinity _ = True"
| "js_gt _ PosInfinity = False"
| "js_gt NegInfinity _ = False"
| "js_gt _ NegInfinity = True"

fun js_le :: "number \<Rightarrow> number \<Rightarrow> bool" where
  "js_le (Fin a) (Fin b) = (a \<le> b)"
| "js_le NaN _ = False"
| "js_le _ NaN = False"
| "js_le NegInfinity _ = True"
| "js_le _ PosInfinity = True"
| "js_le PosInfinity _ = False"
| "js_le _ NegInfinity = False"

section \<open>Values shared by the service modules and the pages\<close>

text \<open>
  \<open>EntityType\<close> is the string union \<open>'clients' | 'workers' | 'tasks'\<close> of
  \<open>types/index.ts\<close>; \<open>entity_name\<close> is the string a template literal prints for it.
\<close>

datatype EntityType = clients | workers | tasks

fun entity_name :: "EntityType \<Rightarrow> string" where
  "entity_name clients = ''clients''"
| "entity_name workers = ''workers''"
| "entity_name tasks = ''tasks''"

text \<open>
  Fields typed \<open>any\<close> hold JSON values; the code only tests them for truthiness and
  copies them. An object or an array is kept as its JSON text; it is always truthy.
\<close>

datatype jsval = JUndefined | JNull | JBool bool | JNum number | JStr string | JObject string

fun truthy :: "jsval \<Rightarrow> bool" where
  "truthy JUndefined = False"
| "truthy JNull = False"
| "truthy (JBool b) = b"
| "truthy (JNum n) = (n \<noteq> Fin 0 \<and> n \<noteq> NaN)"
| "truthy (JStr s) = (s \<noteq> [])"
| "truthy (JObject j) = True"

text \<open>Plain decimal printing of an integer.\<close>

definition digit_char :: "nat \<Rightarrow> char" where
  "digit_char n = ''0123456789'' ! n"

fun nat_to_string :: "nat \<Rightarrow> string" where
  "nat_to_string n =
     (if n < 10 then [digit_char n]
      else nat_to_string (n div 10) @ [digit_char (n mod 10)])"

declare nat_to_string.simps [simp del]

definition int_to_string :: "int \<Rightarrow> string" where
  "int_to_string i =
     (if i < 0 then CHR ''-'' # nat_to_string (nat (- i)) else nat_to_string (nat i))"

text \<open>
  Printing a number that is an integer (\<open>Number::toString\<close>, as a template literal calls
  it). Every integer below \<open>2^53\<close> in magnitude is a double and is printed in plain
  decimal. From there on the runtime prints the shortest digits that read back as the same
  double, padded with zeros, and from \<open>1e21\<close> in exponent form; that printer is not
  modelled, it is the parameter \<open>large\<close>.
\<close>

definition number_to_string :: "(int \<Rightarrow> string) \<Rightarrow> int \<Rightarrow> string" where
  "number_to_string large n = (if \<bar>n\<bar> < 2 ^ 53 then int_to_string n else large n)"

text \<open>
  A rejected promise carries an Axios error, whose \<open>response\<close> (and so its status) is
  absent when the request never got an answer; reading a property of \<open>undefined\<close> or
  \<open>null\<close> throws a \<open>TypeError\<close>.
\<close>

datatype error = AxiosError "int option" | TypeError

fun response_status :: "error \<Rightarrow> int option" where
  "response_status (AxiosError st) = st"
| "response_status TypeError = None"

section \<open>Validation errors: \<open>dataService.getValidationErrors\<close>\<close>

text \<open>
  The backend's validation error \<open>{row, field, message, severity, type}\<close>; \<open>row\<close> is a
  number (\<open>row?: number\<close>) and may be missing.
\<close>

record BackendValidationError =
  bve_row :: "int option"
  bve_field :: string
  bve_message :: string
  bve_severity :: string
  bve_type :: string

text \<open>
  The frontend's validation error. The page's interface declares \<open>id\<close>, \<open>field\<close>,
  \<open>value\<close>, \<open>error\<close>, \<open>suggested_fix\<close> and \<open>originalValidationId\<close>; the objects built
  by the service carry \<open>severity\<close>, \<open>type\<close> and \<open>row\<close> besides.
\<close>

record ValidationError =
  err_id :: string
  err_field :: string
  err_value :: jsval
  err_error :: string
  err_suggested_fix :: jsval
  err_originalValidationId :: "string option"
  err_severity :: "string option"
  err_type :: "string option"
  err_row :: "int option"

text \<open>
  \<open>error.row || 'unknown'\<close>: a missing row and the row \<open>0\<close> are both falsy.
\<close>

definition row_or_unknown :: "(int \<Rightarrow> string) \<Rightarrow> int option \<Rightarrow> string" where
  "row_or_unknown large r =
     (case r of None \<Rightarrow> ''unknown''
      | Some n \<Rightarrow> if n = 0 then ''unknown'' else number_to_string large n)"

definition synthesized_id :: "(int \<Rightarrow> string) \<Rightarrow> EntityType \<Rightarrow> int option \<Rightarrow> string" where
  "synthesized_id large entity r = entity_name entity @ ''-'' @ row_or_unknown large r"

definition transform_validation_error ::
  "(int \<Rightarrow> string) \<Rightarrow> EntityType \<Rightarrow> BackendValidationError \<Rightarrow> ValidationError" where
  "transform_validation_error large entity e =
     \<lparr> err_id = synthesized_id large entity (bve_row e),
       err_field = bve_field e,
       err_value = JNull,
       err_error = bve_message e,
       err_suggested_fix = JNull,
       err_originalValidationId = None,
       err_severity = Some (bve_severity e),
       err_type = Some (bve_type e),
       err_row = bve_row e \<rparr>"

text \<open>
  The body of the answer to \<open>POST /data/{entity}/validate\<close>: \<open>success\<close>, an optional
  \<open>data\<close> object and in it an optional \<open>errors\<close> array.
\<close>

record ValidateData =
  vd_errors :: "BackendValidationError list option"

record ValidateBody =
  vb_success :: bool
  vb_data :: "ValidateData option"

definition getValidationErrors ::
  "(int \<Rightarrow> string) \<Rightarrow> EntityType \<Rightarrow> error + ValidateBody \<Rightarrow> error + ValidationError list" where
  "getValidationErrors large entity response =
     (case response of
        Inl e \<Rightarrow> Inl e
      | Inr body \<Rightarrow>
          (case (if vb_success body then vb_data body else None) of
             None \<Rightarrow> Inr []
           | Some d \<Rightarrow>
               (case vd_errors d of
                  None \<Rightarrow> Inr []
                | Some errs \<Rightarrow> Inr (map (transform_validation_error large entity) errs))))"

text \<open>The specification's wording of the identifier, \<open>row ?? 'unknown'\<close>: only a missing row is replaced.\<close>

definition spec_synthesized_id :: "(int \<Rightarrow> string) \<Rightarrow> EntityType \<Rightarrow> int option \<Rightarrow> string" where
  "spec_synthesized_id large entity r =
     entity_name entity @ ''-'' @
       (case r of None \<Rightarrow> ''unknown'' | Some n \<Rightarrow> number_to_string large n)"

section \<open>The AI-fix page: \<open>app/ai/fix/page.tsx\<close>\<close>

text \<open>A fix as the fix service returns it (\<open>interface AIFix\<close>).\<close>

record AIFix =
  fix_rowId :: string
  fix_field :: string
  fix_currentValue :: jsval
  fix_suggestedValue :: jsval
  fix_reason :: string
  fix_confidence :: number
  fix_originalValidationId :: "string option"

text \<open>The answer of \<open>aiService.fixErrors\<close>; the page reads \<open>data.fixes || []\<close>.\<close>

record AIFixResponse =
  afr_fixes :: "AIFix list option"

text \<open>
  \<open>validationToFixIdMap\<close> is a JavaScript \<open>Map\<close>: \<open>set\<close> overwrites the value of a key
  that is present and appends a new key otherwise, which is \<open>AList.update\<close>; \<open>get\<close> is
  \<open>map_of\<close>.
\<close>

type_synonym IdMap = "(string \<times> string) list"

text \<open>The component's state (its \<open>useState\<close> cells and the data of the validation query).\<close>

record PageState =
  selectedEntity :: EntityType
  errors :: "ValidationError list"
  fixedItems :: "string set"
  isGeneratingFixes :: bool
  validationToFixIdMap :: IdMap
  validationErrors :: "ValidationError list option"

text \<open>What a handler does besides changing the state: toasts and HTTP requests.\<close>

datatype toast = ToastError string | ToastSuccess string | ToastInfo string

datatype request =
    PostFixErrors EntityType "ValidationError list"
  | PatchEntity string "(string \<times> jsval)"

text \<open>
  The two lookups of \<open>fixErrorsMutation.onSuccess\<close>: by \<open>originalValidationId\<close> when the
  fix has a truthy one (a non-empty string), and, when that found nothing, by field name.
\<close>

definition findMatchingOriginalError :: "ValidationError list \<Rightarrow> AIFix \<Rightarrow> ValidationError option" where
  "findMatchingOriginalError originals fix =
     (let byId =
            (case fix_originalValidationId fix of
               None \<Rightarrow> None
             | Some v \<Rightarrow> if v = [] then None else find (\<lambda>originalError. err_id originalError = v) originals)
      in case byId of
           Some e \<Rightarrow> Some e
         | None \<Rightarrow> find (\<lambda>originalError. err_field originalError = fix_field fix) originals)"

text \<open>The identifier of the original error a fix is matched to, if any.\<close>

definition matched_id :: "ValidationError list \<Rightarrow> AIFix \<Rightarrow> string option" where
  "matched_id originals fix = map_option err_id (findMatchingOriginalError originals fix)"

definition transformFix :: "AIFix \<Rightarrow> ValidationError option \<Rightarrow> ValidationError" where
  "transformFix fix matchingOriginalError =
     \<lparr> err_id = fix_rowId fix,
       err_field = fix_field fix,
       err_value = fix_currentValue fix,
       err_error = (if fix_reason fix = [] then ''AI detected issue'' else fix_reason fix),
       err_suggested_fix = fix_suggestedValue fix,
       err_originalValidationId = map_option err_id matchingOriginalError,
       err_severity = None,
       err_type = None,
       err_row = None \<rparr>"

text \<open>
  The \<open>map\<close> callback over the fixes, which also writes \<open>newMapping\<close>: the mapping is
  threaded through the fixes in list order.
\<close>

fun transformFixes :: "ValidationError list \<Rightarrow> AIFix list \<Rightarrow> IdMap \<Rightarrow> IdMap \<times> ValidationError list" where
  "transformFixes originals [] newMapping = (newMapping, [])"
| "transformFixes originals (fix # rest) newMapping =
     (let matchingOriginalError = findMatchingOriginalError originals fix;
          newMapping' =
            (case matchingOriginalError of
               None \<Rightarrow> newMapping
             | Some e \<Rightarrow> AList.update (err_id e) (fix_rowId fix) newMapping);
          (finalMapping, transformed) = transformFixes originals rest newMapping'
      in (finalMapping, transformFix fix matchingOriginalError # transformed))"

definition fixErrors_onSuccess :: "PageState \<Rightarrow> AIFixResponse \<Rightarrow> ValidationError list \<Rightarrow> toast list \<times> PageState" where
  "fixErrors_onSuccess s response variables_errors =
     (let fixes = (case afr_fixes response of None \<Rightarrow> [] | Some fs \<Rightarrow> fs);
          (newMapping, transformedFixes) = transformFixes variables_errors fixes []
      in ([ToastSuccess (''AI fixes generated successfully ('' @ nat_to_string (length transformedFixes)
                          @ '' suggestions)'')],
          s\<lparr> validationToFixIdMap := newMapping, errors := transformedFixes,
             isGeneratingFixes := False \<rparr>))"

definition fixErrors_onError :: "PageState \<Rightarrow> string option \<Rightarrow> toast list \<times> PageState" where
  "fixErrors_onError s message =
     ([ToastError (case message of None \<Rightarrow> ''Failed to generate fixes''
                   | Some m \<Rightarrow> if m = [] then ''Failed to generate fixes'' else m)],
      s\<lparr> isGeneratingFixes := False \<rparr>)"

text \<open>
  \<open>handleGenerateFixes\<close>: the guards, the cap \<open>slice(0, maxErrors)\<close>, and the mutation,
  whose \<open>onMutate\<close> sets the flag and whose \<open>mutationFn\<close> posts \<open>{entity, errors}\<close> to
  \<open>/ai/fix-errors\<close>.
\<close>

definition maxErrors :: nat where
  "maxErrors = 20"

definition handleGenerateFixes :: "PageState \<Rightarrow> request list \<times> toast list \<times> PageState" where
  "handleGenerateFixes s =
     (case validationErrors s of
        None \<Rightarrow> ([], [ToastError ''No validation errors found''], s)
      | Some ves \<Rightarrow>
          if length ves = 0 then ([], [ToastError ''No validation errors found''], s)
          else if isGeneratingFixes s then ([], [ToastError ''Already generating fixes, please wait...''], s)
          else
            (let errorsToProcess = take maxErrors ves;
                 info = (if length ves > maxErrors
                         then [ToastInfo (''Processing first '' @ nat_to_string maxErrors @ '' errors out of ''
                                           @ nat_to_string (length ves) @ '' total'')]
                         else [])
             in ([PostFixErrors (selectedEntity s) errorsToProcess], info,
                 s\<lparr> isGeneratingFixes := True \<rparr>)))"

text \<open>
  The pattern \<open>/^(clients|workers|tasks)-\d+$/\<close>: an entity name, a hyphen, and one or
  more decimal digits up to the end of the string.
\<close>

definition is_digit :: "char \<Rightarrow> bool" where
  "is_digit c = (c \<in> set ''0123456789'')"

definition matches_with_prefix :: "string \<Rightarrow> string \<Rightarrow> bool" where
  "matches_with_prefix p s =
     (take (length p) s = p \<and> drop (length p) s \<noteq> [] \<and> list_all is_digit (drop (length p) s))"

definition matches_synthesized_pattern :: "string \<Rightarrow> bool" where
  "matches_synthesized_pattern s =
     (matches_with_prefix ''clients-'' s \<or> matches_with_prefix ''workers-'' s
      \<or> matches_with_prefix ''tasks-'' s)"

text \<open>\<open>validationToFixIdMap.get(error.id) || error.id\<close>: an empty mapped string is falsy.\<close>

definition actualId_of :: "IdMap \<Rightarrow> ValidationError \<Rightarrow> string" where
  "actualId_of m error =
     (case map_of m (err_id error) of
        None \<Rightarrow> err_id error
      | Some v \<Rightarrow> if v = [] then err_id error else v)"

text \<open>
  \<open>handleApplyFix\<close> either shows an error toast and returns, or calls the mutation with
  \<open>{entity, id, data}\<close>.
\<close>

definition handleApplyFix :: "PageState \<Rightarrow> ValidationError \<Rightarrow> string + (EntityType \<times> string \<times> (string \<times> jsval))" where
  "handleApplyFix s error =
     (if \<not> truthy (err_suggested_fix error) then Inl ''No suggested fix available''
      else
        (let actualId = actualId_of (validationToFixIdMap s) error
         in if actualId = [] \<or> (actualId = err_id error \<and> matches_synthesized_pattern (err_id error))
            then Inl (''Cannot apply fix: Invalid record ID '' @ actualId)
            else Inr (selectedEntity s, actualId, (err_field error, err_suggested_fix error))))"

text \<open>\<open>dataService.updateEntity\<close> issues \<open>PATCH /data/{entity}/{id}\<close> with the data.\<close>

definition updateEntity_url :: "EntityType \<Rightarrow> string \<Rightarrow> string" where
  "updateEntity_url entity rid = ''/data/'' @ entity_name entity @ ''/'' @ rid"

definition updateEntity_request :: "EntityType \<Rightarrow> string \<Rightarrow> (string \<times> jsval) \<Rightarrow> request" where
  "updateEntity_request entity rid d = PatchEntity (updateEntity_url entity rid) d"

text \<open>
  \<open>applyFixMutation.onSuccess\<close>: the identifier used and every key of the map that is
  mapped to it are marked as fixed, and the entries with that identifier leave the list.
\<close>

definition applyFix_onSuccess :: "PageState \<Rightarrow> string \<Rightarrow> toast list \<times> PageState" where
  "applyFix_onSuccess s vid =
     ([ToastSuccess ''Fix applied successfully''],
      s\<lparr> fixedItems := fixedItems s \<union> {vid}
                         \<union> set (map fst (filter (\<lambda>(originalId, mappedId). mappedId = vid) (validationToFixIdMap s))),
         errors := filter (\<lambda>error. err_id error \<noteq> vid) (errors s) \<rparr>)"

text \<open>
  A failed request, as the handlers read it: \<open>error.response?.status\<close>,
  \<open>error.response?.data?.message\<close>, \<open>error.response?.data?.error\<close> and \<open>error.message\<close>.
\<close>

record ApplyFailure =
  af_status :: "int option"
  af_message :: "string option"
  af_error :: "string option"
  af_axios_message :: string

text \<open>
  The response interceptor of \<open>services/api.ts\<close> runs before the error reaches the caller.
  It shows the first non-empty one of the three messages (or a default) as an error toast,
  unless the request's url includes one of \<open>/api/upload/status\<close>, \<open>/api/data/\<close>, \<open>/ai/\<close>.
\<close>

definition url_includes :: "string \<Rightarrow> string \<Rightarrow> bool" where
  "url_includes url path = list_ex (\<lambda>i. take (length path) (drop i url) = path) [0..<Suc (length url)]"

definition non_empty :: "string option \<Rightarrow> string option" where
  "non_empty m = (case m of None \<Rightarrow> None | Some t \<Rightarrow> if t = [] then None else Some t)"

definition responseErrorInterceptor :: "string \<Rightarrow> ApplyFailure \<Rightarrow> toast list" where
  "responseErrorInterceptor url failure =
     (let message =
            (case non_empty (af_message failure) of
               Some t \<Rightarrow> t
             | None \<Rightarrow>
                 (case non_empty (af_error failure) of
                    Some t \<Rightarrow> t
                  | None \<Rightarrow> if af_axios_message failure = [] then ''An error occurred''
                            else af_axios_message failure));
          skipToast = list_ex (url_includes url) [''/api/upload/status'', ''/api/data/'', ''/ai/'']
      in if skipToast then [] else [ToastError message])"

text \<open>
  \<open>applyFixMutation.onError\<close>: a 404 names the identifier; otherwise the server's message
  or a default.
\<close>

definition applyFix_onError :: "PageState \<Rightarrow> ApplyFailure \<Rightarrow> string \<Rightarrow> toast list \<times> PageState" where
  "applyFix_onError s failure vid =
     ([ToastError
         (if af_status failure = Some 404
          then ''Record not found: '' @ vid @ ''. This might be an ID mapping issue.''
          else (case af_message failure of None \<Rightarrow> ''Failed to apply fix''
                | Some m \<Rightarrow> if m = [] then ''Failed to apply fix'' else m))],
      s)"

text \<open>
  One click on an apply button, up to the settling of the request: the requests issued,
  the toasts shown and the state afterwards. \<open>reply\<close> is the backend's answer, used only
  when a request is issued; on a failure the interceptor's toast comes before that of
  \<open>onError\<close>.
\<close>

definition applyFix :: "PageState \<Rightarrow> ValidationError \<Rightarrow> ApplyFailure + unit \<Rightarrow> request list \<times> toast list \<times> PageState" where
  "applyFix s error reply =
     (case handleApplyFix s error of
        Inl message \<Rightarrow> ([], [ToastError message], s)
      | Inr (entity, vid, d) \<Rightarrow>
          (let (toasts, s') =
                 (case reply of
                    Inl failure \<Rightarrow>
                      (responseErrorInterceptor (updateEntity_url entity vid) failure
                         @ fst (applyFix_onError s failure vid),
                       snd (applyFix_onError s failure vid))
                  | Inr _ \<Rightarrow> applyFix_onSuccess s vid)
           in ([updateEntity_request entity vid d], toasts, s')))"

section \<open>The pagination adapter: \<open>dataService.getEntities\<close>\<close>

text \<open>
  The backend's \<open>pagination\<close> object; the adapter reads \<open>page\<close>, \<open>limit\<close>, \<open>total\<close> and
  \<open>totalPages\<close> (not \<open>hasNext\<close>, \<open>hasPrev\<close>). The counters are integers.
\<close>

record Pagination =
  pg_page :: int
  pg_limit :: int
  pg_total :: int
  pg_totalPages :: int

record 'a BackendPaginatedResponse =
  bpr_success :: bool
  bpr_data :: "'a list option"
  bpr_pagination :: "Pagination option"

text \<open>
  What \<open>response.data\<close> can be: \<open>null\<close> (or \<open>undefined\<close>), a bare array, an object, or
  a scalar (a string, number or boolean, on which \<open>.success\<close> is \<open>undefined\<close>).
\<close>

datatype 'a ResponseData =
    RNull
  | RArray "'a list"
  | RObject "'a BackendPaginatedResponse"
  | RScalar

text \<open>
  \<open>Math.ceil(t / l)\<close> for integer counters: the quotient is rounded to a double and then
  taken up to the next integer; dividing by zero gives \<open>NaN\<close> or an infinity.
\<close>

definition math_ceil_div :: "int \<Rightarrow> int \<Rightarrow> number" where
  "math_ceil_div t l =
     (if l = 0 then (if t = 0 then NaN else if 0 < t then PosInfinity else NegInfinity)
      else (case round_double (of_int t / of_int l) of
              Fin q \<Rightarrow> Fin (of_int \<lceil>q\<rceil>)
            | other \<Rightarrow> other))"

record 'a PaginatedResponse =
  pr_items :: "'a list"
  pr_total :: int
  pr_page :: int
  pr_limit :: int
  pr_totalPages :: number

text \<open>\<open>x || y\<close> on numbers: zero is falsy.\<close>

definition or_else :: "int \<Rightarrow> int \<Rightarrow> int" where
  "or_else x y = (if x \<noteq> 0 then x else y)"

definition getEntities :: "int \<Rightarrow> int \<Rightarrow> error + 'a ResponseData \<Rightarrow> error + 'a PaginatedResponse" where
  "getEntities page limit response =
     (case response of
        Inl e \<Rightarrow> Inl e
      | Inr RNull \<Rightarrow> Inl TypeError
      | Inr (RArray xs) \<Rightarrow>
          Inr \<lparr> pr_items = xs, pr_total = int (length xs), pr_page = page, pr_limit = limit,
                pr_totalPages = Fin 1 \<rparr>
      | Inr RScalar \<Rightarrow>
          Inr \<lparr> pr_items = [], pr_total = 0, pr_page = page, pr_limit = limit, pr_totalPages = Fin 1 \<rparr>
      | Inr (RObject backendResponse) \<Rightarrow>
          if bpr_success backendResponse then
            (let total = (case bpr_pagination backendResponse of None \<Rightarrow> 0 | Some pg \<Rightarrow> or_else (pg_total pg) 0)
             in Inr \<lparr> pr_items = (case bpr_data backendResponse of None \<Rightarrow> [] | Some d \<Rightarrow> d),
                      pr_total = total,
                      pr_page = (case bpr_pagination backendResponse of None \<Rightarrow> page
                                 | Some pg \<Rightarrow> or_else (pg_page pg) page),
                      pr_limit = (case bpr_pagination backendResponse of None \<Rightarrow> limit
                                  | Some pg \<Rightarrow> or_else (pg_limit pg) limit),
                      pr_totalPages =
                        (case bpr_pagination backendResponse of
                           None \<Rightarrow> math_ceil_div total limit
                         | Some pg \<Rightarrow>
                             if pg_totalPages pg \<noteq> 0 then Fin (of_int (pg_totalPages pg))
                             else math_ceil_div total limit) \<rparr>)
          else
            Inr \<lparr> pr_items = [], pr_total = 0, pr_page = page, pr_limit = limit, pr_totalPages = Fin 1 \<rparr>)"

section \<open>The data store: \<open>store/useDataStore.ts\<close>\<close>

record StorePagination =
  sp_page :: int
  sp_limit :: int
  sp_total :: int
  sp_totalPages :: int

text \<open>
  \<open>EntityFilters\<close> is an object of optional properties; an object spread copies the
  properties that are present, so filters are a map from property names to values.
\<close>

type_synonym EntityFilters = "string \<rightharpoonup> jsval"

record 'a DataStore =
  currentEntity :: EntityType
  entities :: "string \<rightharpoonup> 'a list"
  loading :: bool
  store_error :: "string option"
  filters :: EntityFilters
  pagination :: StorePagination
  selectedItems :: "string list"

definition setFilters :: "EntityFilters \<Rightarrow> 'a DataStore \<Rightarrow> 'a DataStore" where
  "setFilters new_filters state =
     state\<lparr> filters := filters state ++ new_filters,
            pagination := (pagination state)\<lparr> sp_page := 1 \<rparr> \<rparr>"

section \<open>Rule recommendations: \<open>components/RuleRecommendations.tsx\<close>\<close>

record 'r RecommendationsBody =
  rb_success :: bool
  rb_data_recommendations :: "'r list option"
  rb_recommendations :: "'r list option"

text \<open>\<open>aiService.getRuleRecommendations\<close> logs a failure and throws it again.\<close>

definition getRuleRecommendations :: "error + 'r RecommendationsBody \<Rightarrow> error + 'r list" where
  "getRuleRecommendations response =
     (case response of
        Inl e \<Rightarrow> Inl e
      | Inr body \<Rightarrow>
          if rb_success body then
            (case rb_data_recommendations body of
               Some rs \<Rightarrow> Inr rs
             | None \<Rightarrow> (case rb_recommendations body of Some rs \<Rightarrow> Inr rs | None \<Rightarrow> Inr []))
          else Inr [])"

definition queryFn :: "error + 'r RecommendationsBody \<Rightarrow> error + 'r list" where
  "queryFn response =
     (case getRuleRecommendations response of
        Inr result \<Rightarrow> Inr result
      | Inl e \<Rightarrow> if response_status e = Some 400 then Inr [] else Inl e)"

definition retry :: "nat \<Rightarrow> error \<Rightarrow> bool" where
  "retry failureCount e = (if response_status e = Some 400 then False else failureCount < 3)"

section \<open>Upload status: \<open>uploadService.getUploadStatus\<close>\<close>

datatype UploadState = pending | processing | completed | failed

record UploadStatus =
  us_filename :: string
  us_status :: UploadState
  us_progress :: int
  us_message :: "string option"

record EntityInfo =
  ei_fileName :: "string option"
  ei_hasData :: bool
  ei_recordCount :: "int option"

text \<open>\<open>statusData.entities || {}\<close>, in the order of \<open>Object.entries\<close>.\<close>

record StatusData =
  sd_entities :: "(string \<times> EntityInfo) list option"

record StatusBody =
  sb_success :: bool
  sb_data :: "StatusData option"

text \<open>The \<open>for\<close> loop over the entries returns at the first entity that matches.\<close>

fun lookForFile :: "(int \<Rightarrow> string) \<Rightarrow> string \<Rightarrow> (string \<times> EntityInfo) list \<Rightarrow> UploadStatus option" where
  "lookForFile large filename [] = None"
| "lookForFile large filename ((entity, entityInfo) # rest) =
     (if ei_fileName entityInfo = Some filename \<or> ei_hasData entityInfo then
        Some \<lparr> us_filename = filename,
               us_status = (if ei_hasData entityInfo then completed else failed),
               us_progress = (if ei_hasData entityInfo then 100 else 0),
               us_message =
                 Some (if ei_hasData entityInfo
                       then (case ei_recordCount entityInfo of None \<Rightarrow> ''undefined''
                             | Some n \<Rightarrow> number_to_string large n) @ '' records processed''
                       else ''Processing failed'') \<rparr>
      else lookForFile large filename rest)"

definition default_status :: "string \<Rightarrow> UploadStatus" where
  "default_status filename =
     \<lparr> us_filename = filename, us_status = completed, us_progress = 100,
       us_message = Some ''File processed'' \<rparr>"

definition getUploadStatus :: "(int \<Rightarrow> string) \<Rightarrow> string \<Rightarrow> error + StatusBody \<Rightarrow> error + UploadStatus" where
  "getUploadStatus large filename response =
     (case response of
        Inl e \<Rightarrow> Inl e
      | Inr body \<Rightarrow>
          if sb_success body then
            (case sb_data body of
               None \<Rightarrow> Inl TypeError
             | Some statusData \<Rightarrow>
                 (case lookForFile large filename (case sd_entities statusData of None \<Rightarrow> [] | Some es \<Rightarrow> es) of
                    Some st \<Rightarrow> Inr st
                  | None \<Rightarrow> Inr (default_status filename)))
          else Inr (default_status filename))"

section \<open>The settings page: \<open>app/settings/page.tsx\<close>\<close>

record RulePriorities =
  priorityLevelWeight :: number
  fairnessWeight :: number
  costWeight :: number

text \<open>
  The expression \<open>priorityLevelWeight + fairnessWeight + costWeight\<close>, added from the left,
  and the \<open>disabled\<close> attribute of the save button,
  \<open>updating || Math.abs(sum - 1.0) > 0.01\<close>. The literal \<open>0.01\<close> is the double nearest to
  1/100.
\<close>

definition priorities_sum :: "RulePriorities \<Rightarrow> number" where
  "priorities_sum p = js_add (js_add (priorityLevelWeight p) (fairnessWeight p)) (costWeight p)"

definition save_disabled :: "bool \<Rightarrow> RulePriorities \<Rightarrow> bool" where
  "save_disabled updating p =
     (updating \<or> js_gt (js_abs (js_sub (priorities_sum p) (Fin 1))) (round_double (1 / 100)))"

text \<open>
  The same check on the data page (\<open>app/data/[entity]/edit/[id]/page.tsx\<close>): the weights
  are summed from \<open>0\<close> by \<open>reduce\<close> (each of the three is a number, in the order of the
  record), \<open>isValidWeights = Math.abs(totalWeight - 1.0) <= 0.01\<close>, and the update button
  is disabled by \<open>updatePrioritiesMutation.isPending || !isValidWeights\<close>.
\<close>

definition totalWeight :: "RulePriorities \<Rightarrow> number" where
  "totalWeight p =
     js_add (js_add (js_add (Fin 0) (priorityLevelWeight p)) (fairnessWeight p)) (costWeight p)"

definition isValidWeights :: "RulePriorities \<Rightarrow> bool" where
  "isValidWeights p = js_le (js_abs (js_sub (totalWeight p) (Fin 1))) (round_double (1 / 100))"

definition update_disabled :: "bool \<Rightarrow> RulePriorities \<Rightarrow> bool" where
  "update_disabled isPending p = (isPending \<or> \<not> isValidWeights p)"

section \<open>Concrete inputs used below\<close>

text \<open>
  No integer of magnitude \<open>2^53\<close> or more occurs in the examples, so the printer of such
  integers is never called in them; it is taken to be this one.
\<close>

definition no_large_numbers :: "int \<Rightarrow> string" where
  "no_large_numbers n = []"

definition tasks_row4_errors :: "BackendValidationError list" where
  "tasks_row4_errors =
     [\<lparr> bve_row = Some 4, bve_field = ''Duration'', bve_message = ''Duration must be positive'',
        bve_severity = ''error'', bve_type = ''range'' \<rparr>,
      \<lparr> bve_row = Some 4, bve_field = ''PriorityLevel'', bve_message = ''PriorityLevel out of range'',
        bve_severity = ''error'', bve_type = ''range'' \<rparr>]"

definition tasks_row4_body :: ValidateBody where
  "tasks_row4_body = \<lparr> vb_success = True, vb_data = Some \<lparr> vd_errors = Some tasks_row4_errors \<rparr> \<rparr>"

definition tasks_row0_body :: ValidateBody where
  "tasks_row0_body =
     \<lparr> vb_success = True,
       vb_data = Some \<lparr> vd_errors = Some
         [\<lparr> bve_row = Some 0, bve_field = ''Duration'', bve_message = ''Duration must be positive'',
            bve_severity = ''error'', bve_type = ''range'' \<rparr>] \<rparr> \<rparr>"

definition plain_error :: "string \<Rightarrow> string \<Rightarrow> ValidationError" where
  "plain_error i f =
     \<lparr> err_id = i, err_field = f, err_value = JNull, err_error = ''invalid value'',
       err_suggested_fix = JNull, err_originalValidationId = None,
       err_severity = Some ''error'', err_type = Some ''range'', err_row = None \<rparr>"

definition page_with_errors :: "ValidationError list \<Rightarrow> PageState" where
  "page_with_errors ves =
     \<lparr> selectedEntity = tasks, errors = [], fixedItems = {}, isGeneratingFixes = False,
       validationToFixIdMap = [], validationErrors = Some ves \<rparr>"

definition unmapped_fix :: ValidationError where
  "unmapped_fix =
     \<lparr> err_id = ''tasks-4'', err_field = ''Duration'', err_value = JNum (Fin 0),
       err_error = ''Duration must be positive'', err_suggested_fix = JNum (Fin 3),
       err_originalValidationId = None, err_severity = None, err_type = None, err_row = None \<rparr>"

definition collision_errors :: "ValidationError list" where
  "collision_errors = [plain_error ''tasks-4'' ''Duration'', plain_error ''tasks-4'' ''PriorityLevel'']"

definition fix_for :: "string \<Rightarrow> jsval \<Rightarrow> AIFix" where
  "fix_for rid suggestion =
     \<lparr> fix_rowId = rid, fix_field = ''Duration'', fix_currentValue = JNum (Fin 0),
       fix_suggestedValue = suggestion, fix_reason = ''Duration must be positive'',
       fix_confidence = Fin 1, fix_originalValidationId = Some ''tasks-4'' \<rparr>"

definition after_fixes :: "AIFix list \<Rightarrow> PageState" where
  "after_fixes fs =
     snd (fixErrors_onSuccess (page_with_errors collision_errors) \<lparr> afr_fixes = Some fs \<rparr> collision_errors)"

definition page3_response :: "string BackendPaginatedResponse" where
  "page3_response =
     \<lparr> bpr_success = True, bpr_data = Some [''a'', ''b''],
       bpr_pagination = Some \<lparr> pg_page = 3, pg_limit = 2, pg_total = 6, pg_totalPages = 3 \<rparr> \<rparr>"

definition browsing_store :: "string DataStore" where
  "browsing_store =
     \<lparr> currentEntity = tasks, entities = Map.empty, loading = False, store_error = None,
       filters = [''status'' \<mapsto> JStr ''pending''],
       pagination = \<lparr> sp_page = 4, sp_limit = 25, sp_total = 120, sp_totalPages = 5 \<rparr>,
       selectedItems = [] \<rparr>"

definition idle_status_body :: StatusBody where
  "idle_status_body =
     \<lparr> sb_success = True,
       sb_data = Some \<lparr> sd_entities = Some
         [(''clients'', \<lparr> ei_fileName = None, ei_hasData = False, ei_recordCount = Some 0 \<rparr>),
          (''tasks'', \<lparr> ei_fileName = Some ''old.csv'', ei_hasData = False, ei_recordCount = Some 0 \<rparr>)] \<rparr> \<rparr>"

text \<open>The weights \<open>{0.4, 0.3, 0.3}\<close> and \<open>{0.4, 0.3, 0.25}\<close>, each literal read as a double.\<close>

definition weights_04_03_03 :: RulePriorities where
  "weights_04_03_03 =
     \<lparr> priorityLevelWeight = round_double (4 / 10), fairnessWeight = round_double (3 / 10),
       costWeight = round_double (3 / 10) \<rparr>"

definition weights_04_03_025 :: RulePriorities where
  "weights_04_03_025 =
     \<lparr> priorityLevelWeight = round_double (4 / 10), fairnessWeight = round_double (3 / 10),
       costWeight = round_double (25 / 100) \<rparr>"

text \<open>
  The weights of a priorities object \<open>{priorityLevelWeight: 1e999, fairnessWeight: -1e999,
  costWeight: 0}\<close> in a JSON body: each number is read as the nearest double.
\<close>

definition overflow_weights :: RulePriorities where
  "overflow_weights =
     \<lparr> priorityLevelWeight = round_double (10 ^ 999), fairnessWeight = round_double (- (10 ^ 999)),
       costWeight = Fin 0 \<rparr>"

section \<open>Printing numbers\<close>

lemma nat_to_string_digit: "n < 10 \<Longrightarrow> nat_to_string n = [digit_char n]"
  by (simp add: nat_to_string.simps)

lemma number_to_string_4: "number_to_string large 4 = ''4''"
  by (simp add: number_to_string_def int_to_string_def nat_to_string_digit digit_char_def)

lemma number_to_string_0: "number_to_string large 0 = ''0''"
  by (simp add: number_to_string_def int_to_string_def nat_to_string_digit digit_char_def)

section \<open>Synthesized validation-error identifiers\<close>

lemma err_id_transform:
  "err_id (transform_validation_error large entity e) = synthesized_id large entity (bve_row e)"
  by (simp add: transform_validation_error_def)

lemma synthesized_id_agrees_with_spec:
  "r \<noteq> Some 0 \<Longrightarrow> synthesized_id large entity r = spec_synthesized_id large entity r"
  by (cases r) (simp_all add: synthesized_id_def spec_synthesized_id_def row_or_unknown_def)

text \<open>
  C3, as the code has it. For every validation error that \<open>getValidationErrors\<close> returns
  for an entity, the identifier is the entity name, a hyphen, and the error's row when the
  row is present and not zero, else the literal \<open>unknown\<close> (the code writes
  \<open>row || 'unknown'\<close>, so the row \<open>0\<close> is replaced too); whenever the row is not \<open>0\<close> this
  is the specification's \<open>row ?? 'unknown'\<close> form. The row is printed as a template literal
  prints a number: in plain decimal when its magnitude is below \<open>2^53\<close>. Two errors of the
  same entity with the same row get the same identifier, whatever their fields: the
  collision exists.
\<close>

theorem synthesized_validation_id:
  assumes "vb_success body" and "vb_data body = Some d" and "vd_errors d = Some errs"
  shows "\<exists>out. getValidationErrors large entity (Inr body) = Inr out \<and> length out = length errs \<and>
           (\<forall>i<length errs.
              err_id (out ! i) =
                entity_name entity @ ''-'' @
                  (case bve_row (errs ! i) of None \<Rightarrow> ''unknown''
                   | Some n \<Rightarrow> if n = 0 then ''unknown'' else number_to_string large n) \<and>
              (bve_row (errs ! i) \<noteq> Some 0 \<longrightarrow>
                 err_id (out ! i) = spec_synthesized_id large entity (bve_row (errs ! i))) \<and>
              (\<forall>j<length errs. bve_row (errs ! j) = bve_row (errs ! i) \<longrightarrow>
                 err_id (out ! j) = err_id (out ! i))) \<and>
           (\<forall>i<length errs. \<forall>n. bve_row (errs ! i) = Some n \<and> n \<noteq> 0 \<and> \<bar>n\<bar> < 2 ^ 53 \<longrightarrow>
              err_id (out ! i) = entity_name entity @ ''-'' @ int_to_string n)"
proof -
  let ?out = "map (transform_validation_error large entity) errs"
  have run: "getValidationErrors large entity (Inr body) = Inr ?out"
    using assms by (simp add: getValidationErrors_def)
  have ids: "err_id (?out ! i) = synthesized_id large entity (bve_row (errs ! i))" if "i < length errs" for i
    using that by (simp add: err_id_transform)
  have shape: "synthesized_id large entity r =
      entity_name entity @ ''-'' @
        (case r of None \<Rightarrow> ''unknown'' | Some n \<Rightarrow> if n = 0 then ''unknown'' else number_to_string large n)" for r
    by (simp add: synthesized_id_def row_or_unknown_def)
  have len: "length ?out = length errs" by simp
  have "\<forall>i<length errs.
          err_id (?out ! i) =
            entity_name entity @ ''-'' @
              (case bve_row (errs ! i) of None \<Rightarrow> ''unknown''
               | Some n \<Rightarrow> if n = 0 then ''unknown'' else number_to_string large n) \<and>
          (bve_row (errs ! i) \<noteq> Some 0 \<longrightarrow>
             err_id (?out ! i) = spec_synthesized_id large entity (bve_row (errs ! i))) \<and>
          (\<forall>j<length errs. bve_row (errs ! j) = bve_row (errs ! i) \<longrightarrow>
             err_id (?out ! j) = err_id (?out ! i))"
    using ids shape synthesized_id_agrees_with_spec by metis
  moreover have "\<forall>i<length errs. \<forall>n. bve_row (errs ! i) = Some n \<and> n \<noteq> 0 \<and> \<bar>n\<bar> < 2 ^ 53 \<longrightarrow>
          err_id (?out ! i) = entity_name entity @ ''-'' @ int_to_string n"
    using ids by (simp add: synthesized_id_def row_or_unknown_def number_to_string_def)
  ultimately show ?thesis using run len by blast
qed

theorem synthesized_validation_id_witness:
  "vb_success tasks_row4_body \<and> vb_data tasks_row4_body = Some \<lparr> vd_errors = Some tasks_row4_errors \<rparr> \<and>
   bve_field (tasks_row4_errors ! 0) \<noteq> bve_field (tasks_row4_errors ! 1) \<and>
   (\<exists>out. getValidationErrors no_large_numbers tasks (Inr tasks_row4_body) = Inr out \<and>
          err_id (out ! 0) = ''tasks-4'' \<and> err_id (out ! 1) = ''tasks-4'')"
proof -
  have h1: "vb_success tasks_row4_body"
    and h2: "vb_data tasks_row4_body = Some \<lparr> vd_errors = Some tasks_row4_errors \<rparr>"
    and h3: "vd_errors \<lparr> vd_errors = Some tasks_row4_errors \<rparr> = Some tasks_row4_errors"
    by (simp_all add: tasks_row4_body_def)
  have rows: "bve_row (tasks_row4_errors ! 0) = Some 4" "bve_row (tasks_row4_errors ! 1) = Some 4"
    and len: "length tasks_row4_errors = 2"
    and fields: "bve_field (tasks_row4_errors ! 0) \<noteq> bve_field (tasks_row4_errors ! 1)"
    by (simp_all add: tasks_row4_errors_def)
  from synthesized_validation_id [OF h1 h2 h3, of no_large_numbers tasks]
  obtain out where run: "getValidationErrors no_large_numbers tasks (Inr tasks_row4_body) = Inr out"
    and ids: "\<forall>i<length tasks_row4_errors.
                err_id (out ! i) =
                  entity_name tasks @ ''-'' @
                    (case bve_row (tasks_row4_errors ! i) of None \<Rightarrow> ''unknown''
                     | Some n \<Rightarrow> if n = 0 then ''unknown'' else number_to_string no_large_numbers n) \<and>
                (bve_row (tasks_row4_errors ! i) \<noteq> Some 0 \<longrightarrow>
                   err_id (out ! i) = spec_synthesized_id no_large_numbers tasks (bve_row (tasks_row4_errors ! i))) \<and>
                (\<forall>j<length tasks_row4_errors.
                   bve_row (tasks_row4_errors ! j) = bve_row (tasks_row4_errors ! i) \<longrightarrow>
                   err_id (out ! j) = err_id (out ! i))"
    by blast
  from ids len rows have "err_id (out ! 0) = ''tasks-4''" "err_id (out ! 1) = ''tasks-4''"
    by (simp_all add: number_to_string_4)
  with run h1 h2 fields show ?thesis by blast
qed

text \<open>
  C3 as stated fails at the row \<open>0\<close>: the specification's form gives \<open>tasks-0\<close>, the
  code gives \<open>tasks-unknown\<close>.
\<close>

theorem synthesized_validation_id_counterexample:
  "getValidationErrors no_large_numbers tasks (Inr tasks_row0_body) =
     Inr [\<lparr> err_id = ''tasks-unknown'', err_field = ''Duration'', err_value = JNull,
            err_error = ''Duration must be positive'', err_suggested_fix = JNull,
            err_originalValidationId = None, err_severity = Some ''error'',
            err_type = Some ''range'', err_row = Some 0 \<rparr>] \<and>
   spec_synthesized_id no_large_numbers tasks (Some 0) = ''tasks-0''"
  by (simp add: getValidationErrors_def tasks_row0_body_def transform_validation_error_def
      synthesized_id_def row_or_unknown_def spec_synthesized_id_def number_to_string_0)

section \<open>The pagination adapter\<close>

text \<open>
  C4, as the code has it. For every backend response that is a bare array, and every
  requested page and limit, \<open>getEntities\<close> returns the array as \<open>items\<close>, its length as
  \<open>total\<close>, the requested page as \<open>page\<close> (the code writes \<open>page: page\<close>, not \<open>1\<close>), the
  requested limit as \<open>limit\<close>, and \<open>totalPages = 1\<close>.
\<close>

theorem getEntities_bare_array:
  "getEntities page limit (Inr (RArray xs)) =
     Inr \<lparr> pr_items = xs, pr_total = int (length xs), pr_page = page, pr_limit = limit,
           pr_totalPages = Fin 1 \<rparr>"
  by (simp add: getEntities_def)

theorem getEntities_bare_array_witness:
  "getEntities 1 50 (Inr (RArray [''a'', ''b'', ''c''])) =
     Inr \<lparr> pr_items = [''a'', ''b'', ''c''], pr_total = 3, pr_page = 1, pr_limit = 50,
           pr_totalPages = Fin 1 \<rparr>"
  using getEntities_bare_array [of 1 50 "[''a'', ''b'', ''c'']"] by simp

text \<open>
  C4 as stated fails when the second page is requested: the result carries \<open>page = 2\<close>,
  not \<open>page = 1\<close>.
\<close>

theorem getEntities_bare_array_counterexample:
  "getEntities 2 50 (Inr (RArray [''a'', ''b'', ''c''])) =
     Inr \<lparr> pr_items = [''a'', ''b'', ''c''], pr_total = 3, pr_page = 2, pr_limit = 50,
           pr_totalPages = Fin 1 \<rparr> \<and>
   getEntities 2 50 (Inr (RArray [''a'', ''b'', ''c''])) \<noteq>
     Inr \<lparr> pr_items = [''a'', ''b'', ''c''], pr_total = 3, pr_page = 1, pr_limit = 50,
           pr_totalPages = Fin 1 \<rparr>"
  by (simp add: getEntities_def)

text \<open>
  C5, as the code has it. For every backend response
  \<open>{success: true, data, pagination: {page, limit, total, totalPages}}\<close> the adapter
  returns \<open>items = data\<close> and \<open>total = pagination.total\<close>; \<open>page\<close>, \<open>limit\<close> and
  \<open>totalPages\<close> equal the \<open>pagination\<close> fields when these are not zero. A zero
  \<open>pagination.page\<close> or \<open>pagination.limit\<close> is replaced by the requested page or limit,
  and a zero \<open>pagination.totalPages\<close> by \<open>Math.ceil(total / limit)\<close> for the requested
  limit (each field is read with \<open>||\<close>).
\<close>

theorem getEntities_enveloped:
  assumes "bpr_success r" and "bpr_data r = Some d" and "bpr_pagination r = Some pg"
  shows "\<exists>out. getEntities page limit (Inr (RObject r)) = Inr out \<and>
           pr_items out = d \<and>
           pr_total out = pg_total pg \<and>
           pr_page out = (if pg_page pg = 0 then page else pg_page pg) \<and>
           pr_limit out = (if pg_limit pg = 0 then limit else pg_limit pg) \<and>
           pr_totalPages out =
             (if pg_totalPages pg = 0 then math_ceil_div (pg_total pg) limit
              else Fin (of_int (pg_totalPages pg)))"
  using assms by (simp add: getEntities_def or_else_def Let_def)

theorem getEntities_enveloped_witness:
  "bpr_success page3_response \<and> bpr_data page3_response = Some [''a'', ''b''] \<and>
   bpr_pagination page3_response = Some \<lparr> pg_page = 3, pg_limit = 2, pg_total = 6, pg_totalPages = 3 \<rparr> \<and>
   (\<exists>out. getEntities 1 50 (Inr (RObject page3_response)) = Inr out \<and>
          pr_items out = [''a'', ''b''] \<and> pr_total out = 6 \<and> pr_page out = 3 \<and>
          pr_limit out = 2 \<and> pr_totalPages out = Fin 3)"
proof -
  have h: "bpr_success page3_response" "bpr_data page3_response = Some [''a'', ''b'']"
    "bpr_pagination page3_response = Some \<lparr> pg_page = 3, pg_limit = 2, pg_total = 6, pg_totalPages = 3 \<rparr>"
    by (simp_all add: page3_response_def)
  from getEntities_enveloped [OF h, of 1 50] h show ?thesis by simp
qed

text \<open>
  C5 as stated fails for a backend that counts pages from zero: \<open>pagination.page = 0\<close>
  is falsy, and the result carries the requested page \<open>1\<close> instead.
\<close>

theorem getEntities_enveloped_counterexample:
  "getEntities 1 50
     (Inr (RObject \<lparr> bpr_success = True, bpr_data = Some [''a'', ''b''],
                     bpr_pagination = Some \<lparr> pg_page = 0, pg_limit = 2, pg_total = 6, pg_totalPages = 3 \<rparr> \<rparr>)) =
     Inr \<lparr> pr_items = [''a'', ''b''], pr_total = 6, pr_page = 1, pr_limit = 2, pr_totalPages = Fin 3 \<rparr>"
  by (simp add: getEntities_def or_else_def)

section \<open>Filters and pagination in the data store\<close>

text \<open>
  C7. For every store state and every partial filter update, \<open>setFilters\<close> sets
  \<open>pagination.page\<close> to \<open>1\<close>, leaves \<open>limit\<close>, \<open>total\<close> and \<open>totalPages\<close> as they were,
  and merges the update into the filters: a property of the update overrides the old one,
  every other property is kept. Nothing else in the store changes.
\<close>

theorem setFilters_resets_page:
  "sp_page (pagination (setFilters f s)) = 1 \<and>
   sp_limit (pagination (setFilters f s)) = sp_limit (pagination s) \<and>
   sp_total (pagination (setFilters f s)) = sp_total (pagination s) \<and>
   sp_totalPages (pagination (setFilters f s)) = sp_totalPages (pagination s) \<and>
   (\<forall>k. filters (setFilters f s) k = (case f k of Some v \<Rightarrow> Some v | None \<Rightarrow> filters s k)) \<and>
   currentEntity (setFilters f s) = currentEntity s \<and>
   entities (setFilters f s) = entities s \<and>
   loading (setFilters f s) = loading s \<and>
   store_error (setFilters f s) = store_error s \<and>
   selectedItems (setFilters f s) = selectedItems s"
  by (simp add: setFilters_def map_add_def)

theorem setFilters_resets_page_witness:
  "pagination (setFilters [''search'' \<mapsto> JStr ''acme''] browsing_store) =
     \<lparr> sp_page = 1, sp_limit = 25, sp_total = 120, sp_totalPages = 5 \<rparr> \<and>
   filters (setFilters [''search'' \<mapsto> JStr ''acme''] browsing_store) ''search'' = Some (JStr ''acme'') \<and>
   filters (setFilters [''search'' \<mapsto> JStr ''acme''] browsing_store) ''status'' = Some (JStr ''pending'')"
proof -
  let ?s' = "setFilters [''search'' \<mapsto> JStr ''acme''] browsing_store"
  note t = setFilters_resets_page [of "[''search'' \<mapsto> JStr ''acme'']" browsing_store]
  have p: "pagination ?s' =
      \<lparr> sp_page = sp_page (pagination ?s'), sp_limit = sp_limit (pagination ?s'),
        sp_total = sp_total (pagination ?s'), sp_totalPages = sp_totalPages (pagination ?s') \<rparr>"
    by simp
  have "pagination ?s' = \<lparr> sp_page = 1, sp_limit = 25, sp_total = 120, sp_totalPages = 5 \<rparr>"
    using t by (subst p) (simp add: browsing_store_def)
  moreover have "filters ?s' ''search'' = Some (JStr ''acme'')"
    using t by simp
  moreover have "filters ?s' ''status'' = Some (JStr ''pending'')"
    using t by (simp add: browsing_store_def)
  ultimately show ?thesis by blast
qed

section \<open>The recommendations query\<close>

text \<open>
  C8. When the recommendation endpoint answers with HTTP 400, the query function returns
  the empty list instead of the error, and \<open>retry\<close> refuses every retry of a 400 error. Any
  other failure is propagated by the query function, and \<open>retry\<close> grants a retry exactly
  while fewer than three attempts have failed, that is for the failure counts 0, 1 and 2
  (the query library calls \<open>retry\<close> with the number of failures so far).
\<close>

theorem recommendations_400_is_empty:
  "queryFn (Inl (AxiosError (Some 400))) = Inr [] \<and>
   (\<forall>n. \<not> retry n (AxiosError (Some 400))) \<and>
   (\<forall>e. response_status e \<noteq> Some 400 \<longrightarrow>
        queryFn (Inl e) = Inl e \<and> (\<forall>n. retry n e = (n < 3)) \<and>
        filter (\<lambda>n. retry n e) [0..<k + 3] = [0, 1, 2])"
proof -
  have "filter (\<lambda>n. n < 3) [0..<k + 3] = [0, 1, 2]" for k :: nat
  proof -
    have "[0..<k + 3] = [0, 1, 2] @ [3..<k + 3]"
      by (simp add: upt_rec [of 0] upt_rec [of 1] upt_rec [of 2] upt_rec [of "Suc 0"]
          upt_rec [of "Suc (Suc 0)"] numeral_2_eq_2 numeral_3_eq_3)
    then show ?thesis by simp
  qed
  then show ?thesis
    by (simp add: queryFn_def getRuleRecommendations_def retry_def)
qed

theorem recommendations_400_is_empty_witness:
  "response_status (AxiosError (Some 500)) \<noteq> Some 400 \<and>
   queryFn (Inl (AxiosError (Some 500)) :: error + string RecommendationsBody) = Inl (AxiosError (Some 500)) \<and>
   retry 0 (AxiosError (Some 500)) \<and> retry 2 (AxiosError (Some 500)) \<and> \<not> retry 3 (AxiosError (Some 500)) \<and>
   queryFn (Inl (AxiosError (Some 400)) :: error + string RecommendationsBody) = Inr [] \<and>
   \<not> retry 0 (AxiosError (Some 400))"
proof -
  note t = recommendations_400_is_empty [where ?'a = string and k = 0]
  have ne: "response_status (AxiosError (Some 500)) \<noteq> Some 400" by simp
  from t ne have other:
    "queryFn (Inl (AxiosError (Some 500)) :: error + string RecommendationsBody) = Inl (AxiosError (Some 500))"
    "\<forall>n. retry n (AxiosError (Some 500)) = (n < 3)"
    by blast+
  from t have bad:
    "queryFn (Inl (AxiosError (Some 400)) :: error + string RecommendationsBody) = Inr []"
    "\<forall>n. \<not> retry n (AxiosError (Some 400))"
    by blast+
  from other(2) have "retry 0 (AxiosError (Some 500))" "retry 2 (AxiosError (Some 500))"
    "\<not> retry 3 (AxiosError (Some 500))"
    by simp_all
  with ne other(1) bad show ?thesis by blast
qed

section \<open>Upload status\<close>

text \<open>
  C10. For every filename, when no entity of the backend's status map has that file name
  and no entity has data, \<open>getUploadStatus\<close> returns
  \<open>{filename, status: 'completed', progress: 100, message: 'File processed'}\<close>: a file the
  backend does not know is reported as completed, not as failed or pending.
\<close>

theorem getUploadStatus_default_completed:
  assumes "sb_data body = Some statusData"
    and "\<forall>(entity, info) \<in> set (case sd_entities statusData of None \<Rightarrow> [] | Some es \<Rightarrow> es).
           ei_fileName info \<noteq> Some filename \<and> \<not> ei_hasData info"
  shows "getUploadStatus large filename (Inr body) =
           Inr \<lparr> us_filename = filename, us_status = completed, us_progress = 100,
                 us_message = Some ''File processed'' \<rparr>"
proof -
  have "lookForFile large filename es = None"
    if "\<forall>(entity, info) \<in> set es. ei_fileName info \<noteq> Some filename \<and> \<not> ei_hasData info" for es
    using that by (induction es) auto
  with assms show ?thesis
    by (simp add: getUploadStatus_def default_status_def)
qed

theorem getUploadStatus_default_completed_witness:
  "getUploadStatus no_large_numbers ''never-uploaded.csv'' (Inr idle_status_body) =
     Inr \<lparr> us_filename = ''never-uploaded.csv'', us_status = completed, us_progress = 100,
           us_message = Some ''File processed'' \<rparr>"
  using getUploadStatus_default_completed
    [of idle_status_body
        "\<lparr> sd_entities = Some
           [(''clients'', \<lparr> ei_fileName = None, ei_hasData = False, ei_recordCount = Some 0 \<rparr>),
            (''tasks'', \<lparr> ei_fileName = Some ''old.csv'', ei_hasData = False, ei_recordCount = Some 0 \<rparr>)] \<rparr>"
        "''never-uploaded.csv''" no_large_numbers]
  by (simp add: idle_status_body_def)

section \<open>Generating fixes\<close>

text \<open>
  C9. Whatever the list of validation errors, every request that \<open>handleGenerateFixes\<close>
  sends to the fix service carries the first 20 errors of the list at most, in list order
  (\<open>take 20\<close>); it sends that request whenever the list is not empty and no generation is
  running. When the list holds more than 20 errors the request holds exactly 20, which
  are the first 20, and the errors after them are not in it.
\<close>

theorem generate_fixes_sends_first_20:
  assumes "validationErrors s = Some ves"
  shows "(\<forall>r \<in> set (fst (handleGenerateFixes s)). r = PostFixErrors (selectedEntity s) (take 20 ves)) \<and>
         (ves \<noteq> [] \<and> \<not> isGeneratingFixes s \<longrightarrow>
            fst (handleGenerateFixes s) = [PostFixErrors (selectedEntity s) (take 20 ves)]) \<and>
         length (take 20 ves) \<le> 20 \<and>
         (20 < length ves \<longrightarrow>
            length (take 20 ves) = 20 \<and> (\<forall>i<20. take 20 ves ! i = ves ! i) \<and>
            ves = take 20 ves @ drop 20 ves \<and> drop 20 ves \<noteq> [])"
  using assms by (auto simp add: handleGenerateFixes_def maxErrors_def Let_def)

theorem generate_fixes_sends_first_20_witness:
  "validationErrors (page_with_errors (replicate 20 (plain_error ''tasks-4'' ''Duration'') @
                                       [plain_error ''tasks-9'' ''PriorityLevel''])) =
     Some (replicate 20 (plain_error ''tasks-4'' ''Duration'') @ [plain_error ''tasks-9'' ''PriorityLevel'']) \<and>
   fst (handleGenerateFixes (page_with_errors (replicate 20 (plain_error ''tasks-4'' ''Duration'') @
                                               [plain_error ''tasks-9'' ''PriorityLevel'']))) =
     [PostFixErrors tasks (replicate 20 (plain_error ''tasks-4'' ''Duration''))]"
proof -
  let ?ves = "replicate 20 (plain_error ''tasks-4'' ''Duration'') @ [plain_error ''tasks-9'' ''PriorityLevel'']"
  have h: "validationErrors (page_with_errors ?ves) = Some ?ves"
    by (simp add: page_with_errors_def)
  have idle: "?ves \<noteq> [] \<and> \<not> isGeneratingFixes (page_with_errors ?ves)"
    by (simp add: page_with_errors_def)
  have sel: "selectedEntity (page_with_errors ?ves) = tasks"
    by (simp add: page_with_errors_def)
  have tk: "take 20 ?ves = replicate 20 (plain_error ''tasks-4'' ''Duration'')"
    by simp
  from generate_fixes_sends_first_20 [OF h] idle
  have "fst (handleGenerateFixes (page_with_errors ?ves)) =
          [PostFixErrors (selectedEntity (page_with_errors ?ves)) (take 20 ?ves)]"
    by blast
  with h sel tk show ?thesis by simp
qed

section \<open>The guard of \<open>handleApplyFix\<close>\<close>

text \<open>
  C2. For every fix whose identifier is not resolved through the reconciliation map (the
  map has no entry for it, or an empty one) and whose resolved identifier matches
  \<open>^(clients|workers|tasks)-\d+$\<close>, applying the fix is rejected with an error toast: no
  request is issued and the page state is unchanged, whatever the backend would answer.
\<close>

theorem apply_fix_fails_closed:
  assumes "\<not> (\<exists>v. map_of (validationToFixIdMap s) (err_id e) = Some v \<and> v \<noteq> [])"
    and "matches_synthesized_pattern (actualId_of (validationToFixIdMap s) e)"
  shows "\<exists>message. handleApplyFix s e = Inl message \<and>
           applyFix s e reply = ([], [ToastError message], s)"
proof -
  from assms(1) have same: "actualId_of (validationToFixIdMap s) e = err_id e"
    by (auto simp add: actualId_of_def split: option.splits)
  with assms(2) have "matches_synthesized_pattern (err_id e)" by simp
  with same have "\<exists>message. handleApplyFix s e = Inl message"
    by (simp add: handleApplyFix_def Let_def)
  then show ?thesis by (auto simp add: applyFix_def)
qed

lemma matches_tasks_4: "matches_synthesized_pattern ''tasks-4''"
  by (simp add: matches_synthesized_pattern_def matches_with_prefix_def is_digit_def)

theorem apply_fix_fails_closed_witness:
  "\<not> (\<exists>v. map_of (validationToFixIdMap (page_with_errors [])) (err_id unmapped_fix) = Some v \<and> v \<noteq> []) \<and>
   matches_synthesized_pattern (actualId_of (validationToFixIdMap (page_with_errors [])) unmapped_fix) \<and>
   applyFix (page_with_errors []) unmapped_fix (Inr ()) =
     ([], [ToastError ''Cannot apply fix: Invalid record ID tasks-4''], page_with_errors [])"
proof -
  have h1: "\<not> (\<exists>v. map_of (validationToFixIdMap (page_with_errors [])) (err_id unmapped_fix) = Some v \<and> v \<noteq> [])"
    by (simp add: page_with_errors_def)
  have h2: "matches_synthesized_pattern (actualId_of (validationToFixIdMap (page_with_errors [])) unmapped_fix)"
    by (simp add: page_with_errors_def actualId_of_def unmapped_fix_def matches_tasks_4)
  have msg: "handleApplyFix (page_with_errors []) unmapped_fix = Inl ''Cannot apply fix: Invalid record ID tasks-4''"
    by (simp add: handleApplyFix_def page_with_errors_def actualId_of_def unmapped_fix_def matches_tasks_4)
  from apply_fix_fails_closed [OF h1 h2, of "Inr ()"] msg
  have "applyFix (page_with_errors []) unmapped_fix (Inr ()) =
          ([], [ToastError ''Cannot apply fix: Invalid record ID tasks-4''], page_with_errors [])"
    by auto
  with h1 h2 show ?thesis by blast
qed

section \<open>Reconciling fix identifiers\<close>

lemma find_append_first:
  "find P (xs @ ys) = (case find P xs of Some x \<Rightarrow> Some x | None \<Rightarrow> find P ys)"
  by (induction xs) simp_all

lemma transformFixes_Cons:
  "fst (transformFixes originals (f # fs) m) =
     fst (transformFixes originals fs
            (case findMatchingOriginalError originals f of
               None \<Rightarrow> m
             | Some e \<Rightarrow> AList.update (err_id e) (fix_rowId f) m))"
  "snd (transformFixes originals (f # fs) m) =
     transformFix f (findMatchingOriginalError originals f) #
     snd (transformFixes originals fs
            (case findMatchingOriginalError originals f of
               None \<Rightarrow> m
             | Some e \<Rightarrow> AList.update (err_id e) (fix_rowId f) m))"
  by (simp_all add: Let_def split_beta)

lemma transformFixes_errors:
  "snd (transformFixes originals fs m) =
     map (\<lambda>fix. transformFix fix (findMatchingOriginalError originals fix)) fs"
  by (induction fs arbitrary: m) (simp_all add: transformFixes_Cons del: transformFixes.simps(2))

lemma transformFixes_mapping:
  "map_of (fst (transformFixes originals fs m)) k =
     (case find (\<lambda>g. matched_id originals g = Some k) (rev fs) of
        Some g \<Rightarrow> Some (fix_rowId g)
      | None \<Rightarrow> map_of m k)"
proof (induction fs arbitrary: m)
  case Nil
  then show ?case by simp
next
  case (Cons f rest)
  let ?m' = "case findMatchingOriginalError originals f of
               None \<Rightarrow> m
             | Some e \<Rightarrow> AList.update (err_id e) (fix_rowId f) m"
  have here: "map_of ?m' k = (if matched_id originals f = Some k then Some (fix_rowId f) else map_of m k)"
    by (cases "findMatchingOriginalError originals f") (auto simp add: matched_id_def update_conv')
  show ?case
    unfolding transformFixes_Cons(1) Cons.IH [of ?m'] here
    by (simp add: find_append_first split: option.splits)
qed

lemma find_by_id_hit:
  assumes "e \<in> set originals" and "err_id e = v"
  shows "\<exists>e'. find (\<lambda>originalError. err_id originalError = v) originals = Some e' \<and> err_id e' = v"
proof (cases "find (\<lambda>originalError. err_id originalError = v) originals")
  case None
  with assms show ?thesis by (auto simp add: find_None_iff)
next
  case (Some e')
  then show ?thesis by (auto simp add: find_Some_iff)
qed

lemma match_by_id:
  assumes "fix_originalValidationId fix = Some v" and "v \<noteq> []"
    and "e \<in> set originals" and "err_id e = v"
  shows "findMatchingOriginalError originals fix = find (\<lambda>originalError. err_id originalError = v) originals"
    and "matched_id originals fix = Some v"
proof -
  from find_by_id_hit [OF assms(3,4)] obtain e' where
    hit: "find (\<lambda>originalError. err_id originalError = v) originals = Some e'" and "err_id e' = v"
    by blast
  with assms(1,2) show "findMatchingOriginalError originals fix =
      find (\<lambda>originalError. err_id originalError = v) originals"
    and "matched_id originals fix = Some v"
    by (simp_all add: findMatchingOriginalError_def matched_id_def)
qed

lemma match_by_field:
  assumes "\<And>v. fix_originalValidationId fix = Some v \<Longrightarrow> v \<noteq> [] \<Longrightarrow> \<forall>e \<in> set originals. err_id e \<noteq> v"
  shows "findMatchingOriginalError originals fix =
           find (\<lambda>originalError. err_field originalError = fix_field fix) originals"
proof (cases "fix_originalValidationId fix")
  case None
  then show ?thesis by (simp add: findMatchingOriginalError_def)
next
  case (Some v)
  show ?thesis
  proof (cases "v = []")
    case True
    with Some show ?thesis by (simp add: findMatchingOriginalError_def)
  next
    case False
    with assms Some have "find (\<lambda>originalError. err_id originalError = v) originals = None"
      by (simp add: find_None_iff)
    with Some False show ?thesis by (simp add: findMatchingOriginalError_def)
  qed
qed

lemma apply_transformed_fix:
  assumes "truthy (fix_suggestedValue fix)" and "fix_rowId fix \<noteq> []"
    and "map_of (validationToFixIdMap s) (fix_rowId fix) = None"
    and "\<not> matches_synthesized_pattern (fix_rowId fix)"
  shows "fst (applyFix s (transformFix fix mo) reply) =
           [PatchEntity (''/data/'' @ entity_name (selectedEntity s) @ ''/'' @ fix_rowId fix)
              (fix_field fix, fix_suggestedValue fix)]"
proof -
  have "handleApplyFix s (transformFix fix mo) =
          Inr (selectedEntity s, fix_rowId fix, (fix_field fix, fix_suggestedValue fix))"
    using assms by (simp add: handleApplyFix_def actualId_of_def transformFix_def Let_def)
  then show ?thesis
    by (simp add: applyFix_def updateEntity_request_def updateEntity_url_def Let_def split: prod.splits)
qed

lemma onSuccess_state:
  assumes "afr_fixes response = Some fs"
  shows "validationToFixIdMap (snd (fixErrors_onSuccess s response originals)) =
           fst (transformFixes originals fs [])"
    and "errors (snd (fixErrors_onSuccess s response originals)) =
           map (\<lambda>fix. transformFix fix (findMatchingOriginalError originals fix)) fs"
    and "selectedEntity (snd (fixErrors_onSuccess s response originals)) = selectedEntity s"
  using assms transformFixes_errors [of originals fs "[]"]
  by (simp_all add: fixErrors_onSuccess_def split_beta)

lemma onSuccess_mapping:
  assumes "afr_fixes response = Some fs"
  shows "map_of (validationToFixIdMap (snd (fixErrors_onSuccess s response originals))) k =
           map_option fix_rowId
             (find (\<lambda>g. map_option err_id (findMatchingOriginalError originals g) = Some k) (rev fs))"
  unfolding onSuccess_state(1) [OF assms] transformFixes_mapping matched_id_def
  by (simp split: option.splits)

text \<open>
  C1, as the code has it. A fix is matched first by its \<open>originalValidationId\<close> (when it
  is a non-empty string equal to the identifier of an original error: the first such
  error), and only when that gives nothing by field name (the first original error with
  the fix's field). The map is written fix by fix, so an identifier is sent to the
  \<open>rowId\<close> of the last fix in the list that was matched to it. Hence, when a fix with
  \<open>originalValidationId = v\<close> meets an original error with identifier \<open>v\<close> and no later fix
  is matched to \<open>v\<close>, the map sends \<open>v\<close> to \<open>fix.rowId\<close>. Applying that fix issues
  \<open>PATCH /data/{entity}/{fix.rowId}\<close>, not against \<open>v\<close>, when the suggested value is truthy
  and \<open>fix.rowId\<close> is non-empty, is not itself a key of the map and does not match the
  synthesized-identifier pattern. A fix without a suggested value (\<open>null\<close> or
  \<open>undefined\<close>), and a fix with a truthy one whose \<open>rowId\<close> is not a key of the map and
  matches the pattern, is rejected with an error toast: no request, state unchanged.
\<close>

theorem fix_id_reconciliation:
  assumes "afr_fixes response = Some (pre @ fix # post)"
    and "s' = snd (fixErrors_onSuccess s response originals)"
    and "fix_originalValidationId fix = Some v" and "v \<noteq> []"
    and "e \<in> set originals" and "err_id e = v"
  shows "(\<forall>g w. fix_originalValidationId g = Some w \<and> w \<noteq> [] \<and> (\<exists>e' \<in> set originals. err_id e' = w) \<longrightarrow>
            findMatchingOriginalError originals g = find (\<lambda>originalError. err_id originalError = w) originals) \<and>
         (\<forall>g. (\<forall>w. fix_originalValidationId g = Some w \<longrightarrow> w = [] \<or> (\<forall>e' \<in> set originals. err_id e' \<noteq> w)) \<longrightarrow>
            findMatchingOriginalError originals g =
              find (\<lambda>originalError. err_field originalError = fix_field g) originals) \<and>
         (\<forall>k. map_of (validationToFixIdMap s') k =
            map_option fix_rowId
              (find (\<lambda>g. map_option err_id (findMatchingOriginalError originals g) = Some k)
                 (rev (pre @ fix # post)))) \<and>
         ((\<forall>g \<in> set post. map_option err_id (findMatchingOriginalError originals g) \<noteq> Some v) \<longrightarrow>
            map_of (validationToFixIdMap s') v = Some (fix_rowId fix)) \<and>
         errors s' ! length pre = transformFix fix (findMatchingOriginalError originals fix) \<and>
         (truthy (fix_suggestedValue fix) \<and> fix_rowId fix \<noteq> [] \<and>
          map_of (validationToFixIdMap s') (fix_rowId fix) = None \<and>
          \<not> matches_synthesized_pattern (fix_rowId fix) \<longrightarrow>
            fst (applyFix s' (errors s' ! length pre) reply) =
              [PatchEntity (''/data/'' @ entity_name (selectedEntity s) @ ''/'' @ fix_rowId fix)
                 (fix_field fix, fix_suggestedValue fix)] \<and>
            fix_rowId fix \<noteq> v) \<and>
         (fix_suggestedValue fix = JNull \<or> fix_suggestedValue fix = JUndefined \<longrightarrow>
            applyFix s' (errors s' ! length pre) reply =
              ([], [ToastError ''No suggested fix available''], s')) \<and>
         (truthy (fix_suggestedValue fix) \<and>
          map_of (validationToFixIdMap s') (fix_rowId fix) = None \<and>
          matches_synthesized_pattern (fix_rowId fix) \<longrightarrow>
            applyFix s' (errors s' ! length pre) reply =
              ([], [ToastError (''Cannot apply fix: Invalid record ID '' @ fix_rowId fix)], s'))"
proof -
  let ?P = "\<lambda>k g. map_option err_id (findMatchingOriginalError originals g) = Some k"
  have by_id: "\<forall>g w. fix_originalValidationId g = Some w \<and> w \<noteq> [] \<and> (\<exists>e' \<in> set originals. err_id e' = w) \<longrightarrow>
      findMatchingOriginalError originals g = find (\<lambda>originalError. err_id originalError = w) originals"
    using match_by_id(1) by blast
  have by_field: "\<forall>g. (\<forall>w. fix_originalValidationId g = Some w \<longrightarrow> w = [] \<or> (\<forall>e' \<in> set originals. err_id e' \<noteq> w)) \<longrightarrow>
      findMatchingOriginalError originals g =
        find (\<lambda>originalError. err_field originalError = fix_field g) originals"
    using match_by_field by blast
  have mapping: "\<forall>k. map_of (validationToFixIdMap s') k =
      map_option fix_rowId (find (?P k) (rev (pre @ fix # post)))"
    unfolding assms(2) using onSuccess_mapping [OF assms(1)] by blast
  have mine: "?P v fix"
    using match_by_id(2) [OF assms(3,4,5,6)] by (simp add: matched_id_def)
  have last_wins: "(\<forall>g \<in> set post. map_option err_id (findMatchingOriginalError originals g) \<noteq> Some v) \<longrightarrow>
      map_of (validationToFixIdMap s') v = Some (fix_rowId fix)"
  proof
    assume "\<forall>g \<in> set post. map_option err_id (findMatchingOriginalError originals g) \<noteq> Some v"
    then have "find (?P v) (rev post) = None"
      by (simp add: find_None_iff)
    with mine have "find (?P v) (rev (pre @ fix # post)) = Some fix"
      by (simp add: find_append_first)
    with mapping show "map_of (validationToFixIdMap s') v = Some (fix_rowId fix)" by simp
  qed
  have nth: "errors s' ! length pre = transformFix fix (findMatchingOriginalError originals fix)"
    unfolding assms(2) onSuccess_state(2) [OF assms(1)] by (simp add: nth_append)
  have sel: "selectedEntity s' = selectedEntity s"
    unfolding assms(2) by (rule onSuccess_state(3) [OF assms(1)])
  have key: "map_of (validationToFixIdMap s') v \<noteq> None"
  proof -
    have "find (?P v) (rev (pre @ fix # post)) \<noteq> None"
      using mine by (auto simp add: find_None_iff)
    with mapping show ?thesis by simp
  qed
  have apply_part: "truthy (fix_suggestedValue fix) \<and> fix_rowId fix \<noteq> [] \<and>
          map_of (validationToFixIdMap s') (fix_rowId fix) = None \<and>
          \<not> matches_synthesized_pattern (fix_rowId fix) \<longrightarrow>
            fst (applyFix s' (errors s' ! length pre) reply) =
              [PatchEntity (''/data/'' @ entity_name (selectedEntity s) @ ''/'' @ fix_rowId fix)
                 (fix_field fix, fix_suggestedValue fix)] \<and>
            fix_rowId fix \<noteq> v"
  proof
    assume h: "truthy (fix_suggestedValue fix) \<and> fix_rowId fix \<noteq> [] \<and>
          map_of (validationToFixIdMap s') (fix_rowId fix) = None \<and>
          \<not> matches_synthesized_pattern (fix_rowId fix)"
    then have "fst (applyFix s' (transformFix fix (findMatchingOriginalError originals fix)) reply) =
        [PatchEntity (''/data/'' @ entity_name (selectedEntity s') @ ''/'' @ fix_rowId fix)
           (fix_field fix, fix_suggestedValue fix)]"
      by (intro apply_transformed_fix) simp_all
    moreover from h key have "fix_rowId fix \<noteq> v" by auto
    ultimately show "fst (applyFix s' (errors s' ! length pre) reply) =
              [PatchEntity (''/data/'' @ entity_name (selectedEntity s) @ ''/'' @ fix_rowId fix)
                 (fix_field fix, fix_suggestedValue fix)] \<and>
            fix_rowId fix \<noteq> v"
      unfolding nth sel by simp
  qed
  have no_suggestion: "fix_suggestedValue fix = JNull \<or> fix_suggestedValue fix = JUndefined \<longrightarrow>
      applyFix s' (errors s' ! length pre) reply =
        ([], [ToastError ''No suggested fix available''], s')"
    unfolding nth by (auto simp add: applyFix_def handleApplyFix_def transformFix_def)
  have guarded: "truthy (fix_suggestedValue fix) \<and>
      map_of (validationToFixIdMap s') (fix_rowId fix) = None \<and>
      matches_synthesized_pattern (fix_rowId fix) \<longrightarrow>
        applyFix s' (errors s' ! length pre) reply =
          ([], [ToastError (''Cannot apply fix: Invalid record ID '' @ fix_rowId fix)], s')"
    unfolding nth
    by (simp add: applyFix_def handleApplyFix_def actualId_of_def transformFix_def Let_def)
  show ?thesis
    using by_id by_field mapping last_wins nth apply_part no_suggestion guarded
    by (intro conjI) assumption+
qed

lemmas run_onSuccess =
  after_fixes_def fixErrors_onSuccess_def page_with_errors_def collision_errors_def plain_error_def
  fix_for_def findMatchingOriginalError_def transformFix_def Let_def

lemmas run_apply =
  applyFix_def handleApplyFix_def actualId_of_def updateEntity_request_def updateEntity_url_def
  matches_synthesized_pattern_def matches_with_prefix_def is_digit_def

theorem fix_id_reconciliation_witness:
  "fix_originalValidationId (fix_for ''T004'' (JNum (Fin 3))) = Some ''tasks-4'' \<and>
   plain_error ''tasks-4'' ''Duration'' \<in> set collision_errors \<and>
   map_of (validationToFixIdMap (after_fixes [fix_for ''T004'' (JNum (Fin 3))])) ''tasks-4'' = Some ''T004'' \<and>
   fst (applyFix (after_fixes [fix_for ''T004'' (JNum (Fin 3))])
          (errors (after_fixes [fix_for ''T004'' (JNum (Fin 3))]) ! 0) (Inr ())) =
     [PatchEntity ''/data/tasks/T004'' (''Duration'', JNum (Fin 3))]"
proof -
  let ?fix = "fix_for ''T004'' (JNum (Fin 3))"
  let ?s' = "after_fixes [?fix]"
  have h1: "afr_fixes \<lparr> afr_fixes = Some [?fix] \<rparr> = Some ([] @ ?fix # [])" by simp
  have h2: "?s' = snd (fixErrors_onSuccess (page_with_errors collision_errors)
                        \<lparr> afr_fixes = Some [?fix] \<rparr> collision_errors)"
    by (simp add: after_fixes_def)
  have h3: "fix_originalValidationId ?fix = Some ''tasks-4''" and h4: "''tasks-4'' \<noteq> []"
    and h5: "plain_error ''tasks-4'' ''Duration'' \<in> set collision_errors"
    and h6: "err_id (plain_error ''tasks-4'' ''Duration'') = ''tasks-4''"
    by (simp_all add: fix_for_def collision_errors_def plain_error_def)
  note t = fix_id_reconciliation [OF h1 h2 h3 h4 h5 h6, of "Inr ()"]
  have c1: "truthy (fix_suggestedValue ?fix)" and c2: "fix_rowId ?fix \<noteq> []"
    and c4: "\<not> matches_synthesized_pattern (fix_rowId ?fix)"
    and c5: "fix_rowId ?fix = ''T004''" "fix_field ?fix = ''Duration''" "fix_suggestedValue ?fix = JNum (Fin 3)"
    by (simp_all add: fix_for_def run_apply)
  have c3: "map_of (validationToFixIdMap ?s') (fix_rowId ?fix) = None"
    by (simp add: run_onSuccess)
  have sel: "entity_name (selectedEntity (page_with_errors collision_errors)) = ''tasks''"
    by (simp add: page_with_errors_def)
  note last_wins = t [THEN conjunct2, THEN conjunct2, THEN conjunct2, THEN conjunct1]
  note applied = t [THEN conjunct2, THEN conjunct2, THEN conjunct2, THEN conjunct2, THEN conjunct2,
      THEN conjunct1]
  from last_wins have "map_of (validationToFixIdMap ?s') ''tasks-4'' = Some (fix_rowId ?fix)"
    by simp
  moreover from applied c1 c2 c3 c4
  have "fst (applyFix ?s' (errors ?s' ! length ([] :: AIFix list)) (Inr ())) =
          [PatchEntity (''/data/'' @ entity_name (selectedEntity (page_with_errors collision_errors)) @ ''/'' @ fix_rowId ?fix)
             (fix_field ?fix, fix_suggestedValue ?fix)]"
    by blast
  ultimately show ?thesis using h3 h5 c5 sel by simp
qed

text \<open>
  C1 as stated fails in three ways. Two fixes both refer to \<open>tasks-4\<close>: the second
  overwrites the entry of the first, so the map sends \<open>tasks-4\<close> to \<open>T005\<close>, not to the
  \<open>rowId\<close> \<open>T004\<close> of the first fix. A matched fix whose suggested value is \<open>null\<close> is not
  applied: no request is issued. A matched fix whose \<open>rowId\<close> is \<open>tasks-12\<close> is stopped by
  the guard of \<open>handleApplyFix\<close>: no request is issued.
\<close>

theorem fix_id_reconciliation_counterexample:
  "fix_originalValidationId (fix_for ''T004'' (JNum (Fin 3))) = Some ''tasks-4'' \<and>
   plain_error ''tasks-4'' ''Duration'' \<in> set collision_errors \<and>
   map_of (validationToFixIdMap (after_fixes [fix_for ''T004'' (JNum (Fin 3)), fix_for ''T005'' (JNum (Fin 5))])) ''tasks-4'' =
     Some ''T005'' \<and>
   map_of (validationToFixIdMap (after_fixes [fix_for ''T006'' JNull])) ''tasks-4'' = Some ''T006'' \<and>
   applyFix (after_fixes [fix_for ''T006'' JNull]) (errors (after_fixes [fix_for ''T006'' JNull]) ! 0) (Inr ()) =
     ([], [ToastError ''No suggested fix available''], after_fixes [fix_for ''T006'' JNull]) \<and>
   map_of (validationToFixIdMap (after_fixes [fix_for ''tasks-12'' (JNum (Fin 3))])) ''tasks-4'' = Some ''tasks-12'' \<and>
   applyFix (after_fixes [fix_for ''tasks-12'' (JNum (Fin 3))])
       (errors (after_fixes [fix_for ''tasks-12'' (JNum (Fin 3))]) ! 0) (Inr ()) =
     ([], [ToastError ''Cannot apply fix: Invalid record ID tasks-12''], after_fixes [fix_for ''tasks-12'' (JNum (Fin 3))])"
  by (simp add: run_onSuccess run_apply)

section \<open>Rounding to a double\<close>

lemma search_exp_lower: "- 1074 \<le> search_exp n a"
  by (induction n) simp_all

lemma search_exp_upper: "search_exp n a \<le> int n - 1074"
  by (induction n) auto

lemma search_exp_reached:
  "search_exp n a \<noteq> - 1074 \<Longrightarrow> 2 powi (search_exp n a + 52) \<le> a"
proof (induction n)
  case 0
  then show ?case by simp
next
  case (Suc n)
  show ?case
  proof (cases "2 powi (int n - 1021) \<le> a")
    case True
    moreover have "int n - 1073 + 52 = int n - 1021" by simp
    ultimately show ?thesis by simp
  next
    case False
    with Suc show ?thesis by simp
  qed
qed

lemma search_exp_greatest:
  "- 1074 < e \<Longrightarrow> e \<le> int n - 1074 \<Longrightarrow> 2 powi (e + 52) \<le> a \<Longrightarrow> e \<le> search_exp n a"
proof (induction n)
  case 0
  then show ?case by simp
next
  case (Suc n)
  show ?case
  proof (cases "2 powi (int n - 1021) \<le> a")
    case True
    with Suc.prems show ?thesis by simp
  next
    case False
    have "e \<noteq> int n - 1073"
    proof
      assume "e = int n - 1073"
      then have "e + 52 = int n - 1021" by simp
      with Suc.prems(3) False show False by simp
    qed
    with Suc.prems have "e \<le> int n - 1074" by simp
    with Suc False show ?thesis by simp
  qed
qed

lemma ulp_exponent_lower: "- 1074 \<le> ulp_exponent x"
  by (simp add: ulp_exponent_def search_exp_lower)

lemma ulp_exponent_upper: "ulp_exponent x \<le> 971"
  using search_exp_upper [of 2045 "\<bar>x\<bar>"] by (simp add: ulp_exponent_def)

lemma ulp_exponent_reached:
  "ulp_exponent x \<noteq> - 1074 \<Longrightarrow> 2 powi (ulp_exponent x + 52) \<le> \<bar>x\<bar>"
  unfolding ulp_exponent_def by (rule search_exp_reached)

lemma ulp_exponent_greatest:
  "- 1074 < e \<Longrightarrow> e \<le> 971 \<Longrightarrow> 2 powi (e + 52) \<le> \<bar>x\<bar> \<Longrightarrow> e \<le> ulp_exponent x"
  unfolding ulp_exponent_def by (rule search_exp_greatest) simp_all

lemma ulp_exponent_above:
  assumes "ulp_exponent x < 971"
  shows "\<bar>x\<bar> < 2 powi (ulp_exponent x + 53)"
proof (rule ccontr)
  assume "\<not> \<bar>x\<bar> < 2 powi (ulp_exponent x + 53)"
  then have "2 powi ((ulp_exponent x + 1) + 52) \<le> \<bar>x\<bar>" by (simp add: add.commute add.left_commute)
  moreover have "- 1074 < ulp_exponent x + 1" using ulp_exponent_lower [of x] by simp
  moreover have "ulp_exponent x + 1 \<le> 971" using assms by simp
  ultimately have "ulp_exponent x + 1 \<le> ulp_exponent x" by (rule ulp_exponent_greatest [rotated 2])
  then show False by simp
qed

lemma pow2_mono: "a \<le> b \<Longrightarrow> (2::rat) powi a \<le> 2 powi b"
  by (rule power_int_increasing) simp_all

lemma pow2_less_imp: "(2::rat) powi a < 2 powi b \<Longrightarrow> a < b"
  using pow2_mono [of b a] by (cases "a < b") simp_all

lemma ulp_exponent_eq:
  assumes "- 1074 < e" and "e \<le> 971" and "2 powi (e + 52) \<le> \<bar>x\<bar>" and "\<bar>x\<bar> < 2 powi (e + 53)"
  shows "ulp_exponent x = e"
proof -
  have ge: "e \<le> ulp_exponent x" using assms(1-3) by (rule ulp_exponent_greatest)
  then have "ulp_exponent x \<noteq> - 1074" using assms(1) by simp
  then have "2 powi (ulp_exponent x + 52) \<le> \<bar>x\<bar>" by (rule ulp_exponent_reached)
  with assms(4) have "(2::rat) powi (ulp_exponent x + 52) < 2 powi (e + 53)" by simp
  then have "ulp_exponent x + 52 < e + 53" by (rule pow2_less_imp)
  with ge show ?thesis by simp
qed

lemma ulp_exponent_tiny:
  assumes "\<bar>x\<bar> < 2 powi (- 1021)"
  shows "ulp_exponent x = - 1074"
proof (rule ccontr)
  assume ne: "ulp_exponent x \<noteq> - 1074"
  then have "2 powi (ulp_exponent x + 52) \<le> \<bar>x\<bar>" by (rule ulp_exponent_reached)
  with assms have "(2::rat) powi (ulp_exponent x + 52) < 2 powi (- 1021)" by simp
  then have "ulp_exponent x + 52 < - 1021" by (rule pow2_less_imp)
  with ulp_exponent_lower [of x] ne show False by simp
qed

lemma round_half_even_of_int: "round_half_even (of_int n) = n"
  by (simp add: round_half_even_def)

lemma round_half_even_cases: "round_half_even q = \<lfloor>q\<rfloor> \<or> (round_half_even q = \<lfloor>q\<rfloor> + 1 \<and> of_int \<lfloor>q\<rfloor> < q)"
  by (auto simp add: round_half_even_def Let_def)

lemma round_half_even_ge:
  assumes "of_int n \<le> q"
  shows "n \<le> round_half_even q"
proof -
  have "n \<le> \<lfloor>q\<rfloor>" using assms by linarith
  with round_half_even_cases [of q] show ?thesis by auto
qed

lemma round_half_even_le:
  assumes "q \<le> of_int n"
  shows "round_half_even q \<le> n"
proof -
  have fl: "\<lfloor>q\<rfloor> \<le> n" using assms by linarith
  from round_half_even_cases [of q] show ?thesis
  proof
    assume "round_half_even q = \<lfloor>q\<rfloor>"
    with fl show ?thesis by simp
  next
    assume h: "round_half_even q = \<lfloor>q\<rfloor> + 1 \<and> of_int \<lfloor>q\<rfloor> < q"
    with assms have "(of_int \<lfloor>q\<rfloor> :: rat) < of_int n" by simp
    then have "\<lfloor>q\<rfloor> < n" by simp
    with h show ?thesis by simp
  qed
qed

lemma pow2_pos: "0 < (2::rat) powi e"
  by (simp add: power_int_def)

lemma pow2_add: "(2::rat) powi (a + b) = 2 powi a * 2 powi b"
  by (simp add: power_int_add)

lemma pow2_plus_53: "(2::rat) powi (e + 53) = 2 powi e * 2 ^ 53"
  by (simp add: power_int_add)

lemma pow2_plus_52: "(2::rat) powi (e + 52) = 2 powi e * 2 ^ 52"
  by (simp add: power_int_add)

lemma pow2_minus_53: "(2::rat) powi (- 53) = 1 / 2 ^ 53"
  by (simp add: power_int_minus field_simps)

lemma pow2_minus_52: "(2::rat) powi (- 52) = 1 / 2 ^ 52"
  by (simp add: power_int_minus field_simps)

lemma pow2_minus_1: "(2::rat) powi (- 1) = 1 / 2"
  by (simp add: power_int_minus field_simps)

lemma unit_on_grid:
  assumes "\<bar>y\<bar> = (1::rat)"
  shows "\<exists>n. y = of_int n * 2 powi (- 52)"
proof -
  have "y = 1 \<or> y = - 1" using assms by (simp add: abs_if split: if_splits)
  moreover have "(1::rat) = of_int (2 ^ 52) * 2 powi (- 52)"
    by (simp add: pow2_minus_52)
  moreover have "(- 1::rat) = of_int (- (2 ^ 52)) * 2 powi (- 52)"
    by (simp add: pow2_minus_52)
  ultimately show ?thesis by metis
qed

lemma pow2_nat: "0 \<le> e \<Longrightarrow> (2::rat) powi e = of_int (2 ^ nat e)"
  by (simp add: power_int_def)

lemma round_double_exact:
  assumes "x = of_int n * 2 powi ulp_exponent x" and "\<bar>x\<bar> < 2 ^ 1024"
  shows "round_double x = Fin x"
proof -
  have "x / 2 powi ulp_exponent x = of_int n"
    using pow2_pos [of "ulp_exponent x"] assms(1)
    by (metis less_irrefl nonzero_eq_divide_eq)
  then have "of_int (round_half_even (x / 2 powi ulp_exponent x)) * 2 powi ulp_exponent x = x"
    using assms(1) by (simp add: round_half_even_of_int)
  with assms(2) show ?thesis
    by (simp add: round_double_def Let_def abs_less_iff not_le)
qed

text \<open>Multiples of 2^-53 of magnitude at most one are doubles.\<close>

lemma round_double_grid:
  assumes "\<bar>j\<bar> \<le> 2 ^ 53"
  shows "round_double (of_int j / 2 ^ 53) = Fin (of_int j / 2 ^ 53)"
proof -
  let ?y = "of_int j / 2 ^ 53 :: rat"
  let ?e = "ulp_exponent ?y"
  have y: "?y = of_int j * 2 powi (- 53)"
    by (simp add: pow2_minus_53)
  have le1: "\<bar>?y\<bar> \<le> 1"
  proof -
    have "\<bar>(of_int j :: rat)\<bar> \<le> 2 ^ 53"
      using assms by (metis of_int_abs of_int_le_iff of_int_numeral of_int_power)
    then show ?thesis by (simp add: abs_divide)
  qed
  then have small: "\<bar>?y\<bar> < 2 ^ 1024"
    by (rule le_less_trans) simp
  have "\<exists>n. ?y = of_int n * 2 powi ?e"
  proof (cases "?e \<le> - 53")
    case True
    then have "(2::rat) powi (- 53 - ?e) = of_int (2 ^ nat (- 53 - ?e))"
      by (intro pow2_nat) simp
    moreover have "(2::rat) powi (- 53) = 2 powi (- 53 - ?e) * 2 powi ?e"
      by (simp add: pow2_add [symmetric])
    ultimately have "?y = of_int (j * 2 ^ nat (- 53 - ?e)) * 2 powi ?e"
      unfolding y by simp
    then show ?thesis by blast
  next
    case False
    then have ne: "?e \<noteq> - 1074" by simp
    from ulp_exponent_reached [OF ne] le1 have "(2::rat) powi (?e + 52) \<le> 1" by simp
    then have "\<not> (2::rat) powi 0 < 2 powi (?e + 52)" by simp
    then have "?e + 52 \<le> 0"
      using power_int_strict_increasing [of 0 "?e + 52" "2::rat"] by force
    with False have e: "?e = - 52" by simp
    from ulp_exponent_reached [OF ne] have "1 \<le> \<bar>?y\<bar>" unfolding e by simp
    with le1 have "\<bar>?y\<bar> = 1" by simp
    then show ?thesis unfolding e by (rule unit_on_grid)
  qed
  then obtain n where "?y = of_int n * 2 powi ?e" by blast
  from round_double_exact [OF this small] show ?thesis .
qed

text \<open>A rounding result between 1/2 and 2 is a multiple of 2^-53.\<close>

lemma round_double_near_one:
  assumes "round_double z = Fin x" and "1 / 2 \<le> x"
  shows "\<exists>k. x = of_int k / 2 ^ 53"
proof -
  let ?e = "ulp_exponent z"
  let ?m = "round_half_even (z / 2 powi ?e)"
  have x: "x = of_int ?m * 2 powi ?e"
    using assms(1) by (simp add: round_double_def Let_def split: if_splits)
  show ?thesis
  proof (cases "- 53 \<le> ?e")
    case True
    then have up: "(2::rat) powi (?e + 53) = of_int (2 ^ nat (?e + 53))"
      by (intro pow2_nat) simp
    have split: "(2::rat) powi ?e = 2 powi (?e + 53) * 2 powi (- 53)"
      using pow2_add [of "?e + 53" "- 53"] by (simp only: add_uminus_conv_diff add_diff_cancel)
    have "x = of_int ?m * (2 powi (?e + 53) * 2 powi (- 53))"
      using x by (simp only: split [symmetric])
    also have "\<dots> = of_int ?m * (of_int (2 ^ nat (?e + 53)) * (1 / 2 ^ 53))"
      by (simp only: up pow2_minus_53)
    also have "\<dots> = of_int (?m * 2 ^ nat (?e + 53)) / 2 ^ 53"
      by simp
    finally show ?thesis by blast
  next
    case False
    then have lt: "?e < 971" and e54: "?e + 54 \<le> 0" by simp_all
    from ulp_exponent_above [OF lt] have zlt: "\<bar>z\<bar> < 2 powi (?e + 53)" .
    have "z / 2 powi ?e \<le> \<bar>z\<bar> / 2 powi ?e"
      using pow2_pos [of ?e] by (simp add: divide_right_mono)
    also have "\<dots> \<le> 2 powi (?e + 53) / 2 powi ?e"
      using zlt pow2_pos [of ?e] by (simp add: divide_right_mono)
    also have "\<dots> = of_int (2 ^ 53)"
      using pow2_pos [of ?e] by (simp add: pow2_plus_53)
    finally have "?m \<le> 2 ^ 53" by (rule round_half_even_le)
    then have "(of_int ?m :: rat) \<le> 2 ^ 53"
      by (metis of_int_le_iff of_int_numeral of_int_power)
    then have "x \<le> 2 ^ 53 * 2 powi ?e"
      unfolding x using pow2_pos [of ?e] by (simp add: mult_right_mono)
    also have "\<dots> = 2 powi (?e + 53)"
      by (simp add: pow2_plus_53 mult.commute)
    also have "\<dots> \<le> 2 powi (- 1)"
      using e54 by (intro pow2_mono) simp
    finally have "x \<le> 1 / 2" by (simp add: pow2_minus_1)
    with assms(2) have "x = of_int (2 ^ 52) / 2 ^ 53" by simp
    then show ?thesis by blast
  qed
qed

text \<open>Rounding does not take a number of magnitude at least 1/2 below 1/2.\<close>

lemma round_double_large:
  assumes "1 / 2 \<le> \<bar>y\<bar>" and "round_double y = Fin r"
  shows "1 / 2 \<le> \<bar>r\<bar>"
proof -
  let ?e = "ulp_exponent y"
  let ?m = "round_half_even (y / 2 powi ?e)"
  have r: "r = of_int ?m * 2 powi ?e"
    using assms(2) by (simp add: round_double_def Let_def split: if_splits)
  have "(2::rat) powi (- 53 + 52) \<le> \<bar>y\<bar>" using assms(1) by (simp add: pow2_minus_1)
  then have ge: "- 53 \<le> ?e" by (intro ulp_exponent_greatest) simp_all
  then have "?e \<noteq> - 1074" by simp
  then have reach: "2 powi (?e + 52) \<le> \<bar>y\<bar>" by (rule ulp_exponent_reached)
  have q: "of_int (2 ^ 52) \<le> \<bar>y\<bar> / 2 powi ?e"
  proof -
    have "(of_int (2 ^ 52) :: rat) = 2 powi (?e + 52) / 2 powi ?e"
      using pow2_pos [of ?e] by (simp add: pow2_plus_52)
    also have "\<dots> \<le> \<bar>y\<bar> / 2 powi ?e"
      using reach pow2_pos [of ?e] by (simp add: divide_right_mono)
    finally show ?thesis .
  qed
  have m: "2 ^ 52 \<le> \<bar>?m\<bar>"
  proof (cases "0 \<le> y")
    case True
    with q have "of_int (2 ^ 52) \<le> y / 2 powi ?e" by simp
    then have "2 ^ 52 \<le> ?m" by (rule round_half_even_ge)
    then show ?thesis by simp
  next
    case False
    with q have "y / 2 powi ?e \<le> of_int (- (2 ^ 52))" by simp
    then have "?m \<le> - (2 ^ 52)" by (rule round_half_even_le)
    then show ?thesis by simp
  qed
  then have "(of_int (2 ^ 52) :: rat) \<le> of_int \<bar>?m\<bar>" by (simp only: of_int_le_iff)
  then have "(2 ^ 52 :: rat) \<le> \<bar>of_int ?m\<bar>" by simp
  then have "(2 ^ 52 :: rat) * 2 powi ?e \<le> \<bar>of_int ?m\<bar> * 2 powi ?e"
    using pow2_pos [of ?e] by (simp add: mult_right_mono)
  also have "\<dots> = \<bar>r\<bar>"
    unfolding r using pow2_pos [of ?e] by (simp add: abs_mult)
  finally have "2 powi (?e + 52) \<le> \<bar>r\<bar>" by (simp add: pow2_plus_52 mult.commute)
  moreover have "(2::rat) powi (- 1) \<le> 2 powi (?e + 52)" using ge by (intro pow2_mono) simp
  ultimately show ?thesis by (simp add: pow2_minus_1)
qed

lemma round_half_even_nearest:
  assumes "\<bar>q - of_int m\<bar> < 1 / 2"
  shows "round_half_even q = m"
proof (cases "of_int m \<le> q")
  case True
  with assms have "\<lfloor>q\<rfloor> = m" by (intro floor_unique) simp_all
  with assms True show ?thesis by (simp add: round_half_even_def)
next
  case False
  with assms have "\<lfloor>q\<rfloor> = m - 1" by (intro floor_unique) simp_all
  with assms False show ?thesis by (simp add: round_half_even_def)
qed

lemma round_half_even_tie:
  assumes "q = of_int f + 1 / 2"
  shows "round_half_even q = (if even f then f else f + 1)"
proof -
  from assms have "\<lfloor>q\<rfloor> = f" by (intro floor_unique) simp_all
  with assms show ?thesis by (simp add: round_half_even_def)
qed

lemma round_double_value:
  assumes "- 1074 < e" and "e \<le> 971" and "2 powi (e + 52) \<le> \<bar>x\<bar>" and "\<bar>x\<bar> < 2 powi (e + 53)"
    and "round_half_even (x / 2 powi e) = m" and "r = of_int m * 2 powi e" and "\<bar>r\<bar> < 2 ^ 1024"
  shows "round_double x = Fin r"
  using assms(5-7) by (simp add: round_double_def ulp_exponent_eq [OF assms(1-4)] abs_less_iff not_le)

lemma round_double_nearest:
  assumes "- 1074 < e" and "e \<le> 971" and "2 powi (e + 52) \<le> \<bar>x\<bar>" and "\<bar>x\<bar> < 2 powi (e + 53)"
    and "\<bar>x / 2 powi e - of_int m\<bar> < 1 / 2" and "r = of_int m * 2 powi e" and "\<bar>r\<bar> < 2 ^ 1024"
  shows "round_double x = Fin r"
  using assms(1-4) round_half_even_nearest [OF assms(5)] assms(6,7) by (rule round_double_value)

lemma round_double_tie:
  assumes "- 1074 < e" and "e \<le> 971" and "2 powi (e + 52) \<le> \<bar>x\<bar>" and "\<bar>x\<bar> < 2 powi (e + 53)"
    and "x / 2 powi e = of_int f + 1 / 2" and "r = of_int (if even f then f else f + 1) * 2 powi e"
    and "\<bar>r\<bar> < 2 ^ 1024"
  shows "round_double x = Fin r"
  using assms(1-4) round_half_even_tie [OF assms(5)] assms(6,7) by (rule round_double_value)

lemma round_double_0: "round_double 0 = Fin 0"
proof -
  have "ulp_exponent 0 = - 1074"
    by (rule ulp_exponent_tiny) (simp add: pow2_pos)
  then show ?thesis by (simp add: round_double_def round_half_even_def)
qed

lemmas eval_round = power_int_minus power_int_add

lemma literal_0_01: "round_double (1 / 100) = Fin (5764607523034235 / 2 ^ 59)"
  by (rule round_double_nearest [where e = "- 59" and m = 5764607523034235]) (simp_all add: eval_round)

lemma literal_0_4: "round_double (4 / 10) = Fin (3602879701896397 / 2 ^ 53)"
  by (rule round_double_nearest [where e = "- 54" and m = 7205759403792794]) (simp_all add: eval_round)

lemma literal_0_3: "round_double (3 / 10) = Fin (5404319552844595 / 2 ^ 54)"
  by (rule round_double_nearest [where e = "- 54" and m = 5404319552844595]) (simp_all add: eval_round)

lemma literal_0_25: "round_double (25 / 100) = Fin (1 / 4)"
  by (rule round_double_nearest [where e = "- 54" and m = 4503599627370496]) (simp_all add: eval_round)

lemma sum_0_4_0_3:
  "round_double (3602879701896397 / 2 ^ 53 + 5404319552844595 / 2 ^ 54) = Fin (3152519739159347 / 2 ^ 52)"
  by (rule round_double_tie [where e = "- 53" and f = 6305039478318694]) (simp_all add: eval_round)

lemma sum_0_7_0_3:
  "round_double (3152519739159347 / 2 ^ 52 + 5404319552844595 / 2 ^ 54) = Fin 1"
  by (rule round_double_tie [where e = "- 53" and f = 9007199254740991]) (simp_all add: eval_round)

lemma sum_0_7_0_25:
  "round_double (3152519739159347 / 2 ^ 52 + 1 / 4) = Fin (4278419646001971 / 2 ^ 52)"
  by (rule round_double_nearest [where e = "- 53" and m = 8556839292003942]) (simp_all add: eval_round)

lemma diff_0_95_1:
  "round_double (4278419646001971 / 2 ^ 52 - 1) = Fin (- (225179981368525 / 2 ^ 52))"
  by (rule round_double_nearest [where e = "- 57" and m = "- 7205759403792800"]) (simp_all add: eval_round)

lemma round_double_not_NaN: "round_double z \<noteq> NaN"
  by (simp add: round_double_def Let_def)

lemma tolerance_on_grid:
  assumes "round_double z = Fin x"
    and "\<not> js_gt (js_abs (js_sub (Fin x) (Fin 1))) (round_double (1 / 100))"
  shows "\<bar>x - 1\<bar> \<le> 1 / 100"
proof (cases "1 / 2 \<le> x \<and> x \<le> 2")
  case True
  then obtain k :: int where k: "x = of_int k / 2 ^ 53"
    using round_double_near_one [OF assms(1)] by blast
  define j where "j = k - 2 ^ 53"
  have xj: "x - 1 = of_int j / 2 ^ 53"
    by (simp add: k j_def diff_divide_distrib)
  have "(of_int (2 ^ 52) :: rat) \<le> of_int k" and "(of_int k :: rat) \<le> of_int (2 ^ 54)"
    using True by (simp_all add: k field_simps)
  then have "2 ^ 52 \<le> k" and "k \<le> 2 ^ 54" by (simp_all only: of_int_le_iff)
  then have jb: "\<bar>j\<bar> \<le> 2 ^ 53" by (simp add: j_def)
  have "js_sub (Fin x) (Fin 1) = Fin (of_int j / 2 ^ 53)"
    using round_double_grid [OF jb] by (simp add: xj)
  with assms(2) have "\<bar>(of_int j :: rat) / 2 ^ 53\<bar> \<le> 5764607523034235 / 2 ^ 59"
    by (simp add: literal_0_01 not_less)
  then have "(of_int (\<bar>j\<bar> * 64) :: rat) \<le> of_int 5764607523034235"
    by (simp add: field_simps)
  then have "\<bar>j\<bar> * 64 \<le> 5764607523034235" by (simp only: of_int_le_iff)
  then have "\<bar>j\<bar> \<le> 90071992547409" by simp
  then have "(of_int \<bar>j\<bar> :: rat) \<le> of_int 90071992547409" by (simp only: of_int_le_iff)
  then have "\<bar>(of_int j :: rat) / 2 ^ 53\<bar> \<le> 1 / 100" by (simp add: field_simps)
  then show ?thesis unfolding xj .
next
  case False
  then have big: "1 / 2 \<le> \<bar>x - 1\<bar>" by (auto simp add: abs_if)
  have lit: "round_double (1 / 100) = Fin (5764607523034235 / 2 ^ 59)" by (rule literal_0_01)
  show ?thesis
  proof (cases "round_double (x - 1)")
    case (Fin r)
    from round_double_large [OF big Fin] have "1 / 2 \<le> \<bar>r\<bar>" .
    then have "5764607523034235 / 2 ^ 59 < \<bar>r\<bar>" by simp
    with assms(2) Fin lit show ?thesis by simp
  next
    case NaN
    with round_double_not_NaN show ?thesis by blast
  next
    case PosInfinity
    with assms(2) lit show ?thesis by simp
  next
    case NegInfinity
    with assms(2) lit show ?thesis by simp
  qed
qed

lemma save_only_within_tolerance:
  assumes "\<not> save_disabled updating p"
    and "priorityLevelWeight p = Fin a" and "fairnessWeight p = Fin b" and "costWeight p = Fin c"
  shows "\<exists>s. priorities_sum p = Fin s \<and> \<bar>s - 1\<bar> \<le> 1 / 100"
proof -
  have lit: "round_double (1 / 100) = Fin (5764607523034235 / 2 ^ 59)" by (rule literal_0_01)
  from assms(1) have within: "\<not> js_gt (js_abs (js_sub (priorities_sum p) (Fin 1))) (round_double (1 / 100))"
    by (simp add: save_disabled_def)
  have "\<exists>z. priorities_sum p = round_double z \<or> priorities_sum p = PosInfinity \<or> priorities_sum p = NegInfinity"
  proof (cases "round_double (a + b)")
    case (Fin u)
    then show ?thesis using assms(2-4) by (auto simp add: priorities_sum_def)
  next
    case NaN
    with round_double_not_NaN show ?thesis by blast
  next
    case PosInfinity
    then show ?thesis using assms(2-4) by (simp add: priorities_sum_def)
  next
    case NegInfinity
    then show ?thesis using assms(2-4) by (simp add: priorities_sum_def)
  qed
  then obtain z where z: "priorities_sum p = round_double z \<or> priorities_sum p = PosInfinity \<or> priorities_sum p = NegInfinity"
    by blast
  show ?thesis
  proof (cases "priorities_sum p")
    case (Fin s)
    with z have "round_double z = Fin s" by auto
    from tolerance_on_grid [OF this] within Fin show ?thesis by simp
  next
    case NaN
    with z round_double_not_NaN [of z] show ?thesis by auto
  next
    case PosInfinity
    with within lit show ?thesis by simp
  next
    case NegInfinity
    with within lit show ?thesis by simp
  qed
qed

section \<open>The tolerance check of the priority weights\<close>

lemma sum_04_03_03: "priorities_sum weights_04_03_03 = Fin 1"
proof -
  have f: "priorityLevelWeight weights_04_03_03 = round_double (4 / 10)"
    "fairnessWeight weights_04_03_03 = round_double (3 / 10)"
    "costWeight weights_04_03_03 = round_double (3 / 10)"
    by (simp_all add: weights_04_03_03_def)
  show ?thesis
    unfolding priorities_sum_def f literal_0_4 literal_0_3 js_add.simps sum_0_4_0_3 sum_0_7_0_3
    by (rule refl)
qed

lemma sum_04_03_025: "priorities_sum weights_04_03_025 = Fin (4278419646001971 / 2 ^ 52)"
proof -
  have f: "priorityLevelWeight weights_04_03_025 = round_double (4 / 10)"
    "fairnessWeight weights_04_03_025 = round_double (3 / 10)"
    "costWeight weights_04_03_025 = round_double (25 / 100)"
    by (simp_all add: weights_04_03_025_def)
  show ?thesis
    unfolding priorities_sum_def f literal_0_4 literal_0_3 literal_0_25 js_add.simps sum_0_4_0_3 sum_0_7_0_25
    by (rule refl)
qed

lemma enabled_04_03_03: "\<not> save_disabled False weights_04_03_03"
proof -
  have "js_sub (Fin 1) (Fin 1) = Fin 0" by (simp add: round_double_0)
  then show ?thesis
    unfolding save_disabled_def sum_04_03_03 literal_0_01 by simp
qed

lemma disabled_04_03_025: "save_disabled updating weights_04_03_025"
proof -
  have "js_sub (Fin (4278419646001971 / 2 ^ 52)) (Fin 1) = Fin (- (225179981368525 / 2 ^ 52))"
    unfolding js_sub.simps by (rule diff_0_95_1)
  then show ?thesis
    unfolding save_disabled_def sum_04_03_025 literal_0_01 by simp
qed

text \<open>
  For finite weights the check keeps the tolerance. When the save button is not disabled,
  the sum that the page computes, \<open>(priorityLevelWeight + fairnessWeight) + costWeight\<close> in
  double arithmetic, is finite and \<open>|sum - 1.0| \<le> 0.01\<close>. The weights \<open>{0.4, 0.3, 0.3}\<close>
  sum to exactly \<open>1.0\<close> and the button is enabled while no update is running; the weights
  \<open>{0.4, 0.3, 0.25}\<close> sum to the double nearest to 0.95 and the button is disabled.
\<close>

lemma save_enabled_within_tolerance_finite:
  "(\<forall>updating p a b c.
      priorityLevelWeight p = Fin a \<and> fairnessWeight p = Fin b \<and> costWeight p = Fin c \<and>
      \<not> save_disabled updating p \<longrightarrow>
        (\<exists>s. priorities_sum p = Fin s \<and> \<bar>s - 1\<bar> \<le> 1 / 100)) \<and>
   priorities_sum weights_04_03_03 = Fin 1 \<and>
   \<not> save_disabled False weights_04_03_03 \<and>
   priorities_sum weights_04_03_025 = Fin (4278419646001971 / 2 ^ 52) \<and>
   (\<forall>updating. save_disabled updating weights_04_03_025)"
  using save_only_within_tolerance sum_04_03_03 enabled_04_03_03 sum_04_03_025 disabled_04_03_025
  by blast

section \<open>Weights that are not finite\<close>

lemma ulp_exponent_top:
  assumes "2 ^ 1023 \<le> \<bar>x\<bar>"
  shows "ulp_exponent x = 971"
proof -
  have "(2::rat) powi (971 + 52) \<le> \<bar>x\<bar>" using assms by simp
  then have "971 \<le> ulp_exponent x" by (intro ulp_exponent_greatest) simp_all
  with ulp_exponent_upper [of x] show ?thesis by simp
qed

lemma round_double_overflow_up:
  assumes "2 ^ 1024 \<le> x"
  shows "round_double x = PosInfinity"
proof -
  have e: "ulp_exponent x = 971"
    using assms by (intro ulp_exponent_top) simp
  have pos: "(0::rat) < 2 ^ 971" by simp
  have "(of_int (2 ^ 53) :: rat) = 2 ^ 1024 / 2 ^ 971" by simp
  also have "\<dots> \<le> x / 2 ^ 971"
    using assms pos by (simp add: divide_right_mono)
  finally have "2 ^ 53 \<le> round_half_even (x / 2 ^ 971)" by (rule round_half_even_ge)
  then have "(of_int (2 ^ 53) :: rat) \<le> of_int (round_half_even (x / 2 ^ 971))"
    by (simp only: of_int_le_iff)
  then have "(of_int (2 ^ 53) :: rat) * 2 ^ 971 \<le> of_int (round_half_even (x / 2 ^ 971)) * 2 ^ 971"
    using pos by (simp only: mult_right_mono less_imp_le)
  then have "(2 ^ 1024 :: rat) \<le> of_int (round_half_even (x / 2 ^ 971)) * 2 ^ 971" by simp
  then show ?thesis by (simp add: round_double_def e)
qed

lemma round_double_overflow_down:
  assumes "x \<le> - (2 ^ 1024)"
  shows "round_double x = NegInfinity"
proof -
  have e: "ulp_exponent x = 971"
    using assms by (intro ulp_exponent_top) simp
  have pos: "(0::rat) < 2 ^ 971" by simp
  have "x / 2 ^ 971 \<le> - (2 ^ 1024) / 2 ^ 971"
    using assms pos by (simp add: divide_right_mono)
  also have "\<dots> = of_int (- (2 ^ 53))" by simp
  finally have "round_half_even (x / 2 ^ 971) \<le> - (2 ^ 53)" by (rule round_half_even_le)
  then have "(of_int (round_half_even (x / 2 ^ 971)) :: rat) \<le> of_int (- (2 ^ 53))"
    by (simp only: of_int_le_iff)
  then have "(of_int (round_half_even (x / 2 ^ 971)) :: rat) * 2 ^ 971 \<le> of_int (- (2 ^ 53)) * 2 ^ 971"
    using pos by (simp only: mult_right_mono less_imp_le)
  then have le: "(of_int (round_half_even (x / 2 ^ 971)) :: rat) * 2 ^ 971 \<le> - (2 ^ 1024)" by simp
  then have "\<not> (2 ^ 1024 :: rat) \<le> of_int (round_half_even (x / 2 ^ 971)) * 2 ^ 971" by simp
  with le show ?thesis by (simp add: round_double_def e)
qed

lemma beyond_the_doubles: "(2::rat) ^ 1024 \<le> 10 ^ 999"
proof -
  have "(2::rat) ^ 1024 \<le> 2 ^ (3 * 999)" by (rule power_increasing) simp_all
  also have "\<dots> = (2 ^ 3) ^ 999" by (rule power_mult)
  also have "\<dots> \<le> 10 ^ 999" by (rule power_mono) simp_all
  finally show ?thesis .
qed

lemma literal_1e999: "round_double (10 ^ 999) = PosInfinity"
  by (rule round_double_overflow_up) (rule beyond_the_doubles)

lemma literal_minus_1e999: "round_double (- (10 ^ 999)) = NegInfinity"
  by (rule round_double_overflow_down) (simp only: neg_le_iff_le beyond_the_doubles)

text \<open>
  C6, at the input where the code leaves it. A priorities object with the weights
  \<open>1e999\<close>, \<open>-1e999\<close> and \<open>0\<close> is read as \<open>Infinity\<close>, \<open>-Infinity\<close> and \<open>0\<close>; their sum is
  \<open>NaN\<close>, \<open>Math.abs(NaN - 1.0) > 0.01\<close> is false, and the save button of the settings page
  is enabled while no update is running, although \<open>|sum - 1.0| \<le> 0.01\<close> does not hold. The
  check of the data page, written with \<open><=\<close>, disables its button at the same weights.
\<close>

theorem save_enabled_at_nan_sum:
  "priorityLevelWeight overflow_weights = PosInfinity \<and>
   fairnessWeight overflow_weights = NegInfinity \<and>
   costWeight overflow_weights = Fin 0 \<and>
   priorities_sum overflow_weights = NaN \<and>
   \<not> save_disabled False overflow_weights \<and>
   update_disabled False overflow_weights"
proof -
  have f: "priorityLevelWeight overflow_weights = PosInfinity"
    "fairnessWeight overflow_weights = NegInfinity"
    "costWeight overflow_weights = Fin 0"
    by (simp_all only: overflow_weights_def RulePriorities.select_convs
        literal_1e999 literal_minus_1e999)
  have sum: "priorities_sum overflow_weights = NaN"
    by (simp add: priorities_sum_def f)
  have total: "totalWeight overflow_weights = NaN"
    by (simp add: totalWeight_def f)
  have "\<not> save_disabled False overflow_weights"
    by (simp add: save_disabled_def sum)
  moreover have "update_disabled False overflow_weights"
    by (simp add: update_disabled_def isValidWeights_def total)
  ultimately show ?thesis using f sum by blast
qed

end
